theory Spec2Isabelle
  imports Complex_Main "HOL-Library.Sublist"
begin

section \<open>Python exceptions\<close>

text \<open>
  Every exception the modelled code raises, catches or lets through is a value: its class
  and the text \<open>str(e)\<close> gives. Only classes below \<open>Exception\<close> are modelled (the
  handlers of the source are all \<open>except Exception\<close> or \<open>except TypeError\<close>).
\<close>

datatype exn_class = TypeError | BridgeError | OSError | ImportError | OtherError

datatype exn = Exn exn_class string

fun class_of :: "exn \<Rightarrow> exn_class" where
  "class_of (Exn c m) = c"

fun str_exn :: "exn \<Rightarrow> string" where
  "str_exn (Exn c m) = m"

section \<open>The pin-I/O emulator (stubs_gpio.py)\<close>

definition BCM :: int where "BCM = 11"
definition BOARD :: int where "BOARD = 10"
definition IN :: int where "IN = 0"
definition OUT :: int where "OUT = 1"
definition HIGH :: int where "HIGH = 1"
definition LOW :: int where "LOW = 0"

text \<open>
  A registered callback is a Python callable. What \<open>simulate_edge\<close> can observe of it is
  whether a call with one positional argument binds, whether a call with no argument
  binds, and what its body does once the call has bound: the body transforms the rest of
  the program state \<open>'w\<close> and returns or raises. A call that does not bind raises
  \<open>TypeError\<close> before the body runs.
\<close>

record 'w callback =
  accepts_one :: bool
  accepts_zero :: bool
  body :: "int option \<Rightarrow> 'w \<Rightarrow> exn option \<times> 'w"

text \<open>The module globals of stubs_gpio.py.\<close>

record 'w gpio =
  callbacks :: "int \<rightharpoonup> 'w callback"
  channel_edges :: "int \<rightharpoonup> int"
  gpio_mode :: int
  warnings :: bool
  pin_state :: "int \<rightharpoonup> int"
  pin_dir :: "int \<rightharpoonup> int"

definition gpio_initial :: "'w gpio" where
  "gpio_initial = \<lparr>callbacks = Map.empty, channel_edges = Map.empty, gpio_mode = BCM,
     warnings = False, pin_state = Map.empty, pin_dir = Map.empty\<rparr>"

definition setmode :: "int \<Rightarrow> 'w gpio \<Rightarrow> 'w gpio" where
  "setmode m g = g\<lparr>gpio_mode := m\<rparr>"

definition getmode :: "'w gpio \<Rightarrow> int" where
  "getmode g = gpio_mode g"

definition setwarnings :: "bool \<Rightarrow> 'w gpio \<Rightarrow> 'w gpio" where
  "setwarnings flag g = g\<lparr>warnings := flag\<rparr>"

text \<open>\<open>setup(channel, mode, pull_up_down=None, initial=None)\<close>\<close>

definition gpio_setup :: "int \<Rightarrow> int \<Rightarrow> int option \<Rightarrow> int option \<Rightarrow> 'w gpio \<Rightarrow> 'w gpio" where
  "gpio_setup channel m pull_up_down initial g =
     (let g1 = g\<lparr>pin_dir := (pin_dir g)(channel \<mapsto> m)\<rparr>
      in case initial of
           None \<Rightarrow> g1
         | Some v \<Rightarrow> g1\<lparr>pin_state := (pin_state g1)(channel \<mapsto> v)\<rparr>)"

text \<open>\<open>input(channel)\<close>: \<open>_pin_state.get(channel, LOW)\<close>\<close>

definition gpio_input :: "'w gpio \<Rightarrow> int \<Rightarrow> int" where
  "gpio_input g channel = (case pin_state g channel of None \<Rightarrow> LOW | Some v \<Rightarrow> v)"

text \<open>\<open>output(channel, value)\<close>: an integer is truthy when it is not zero.\<close>

definition gpio_output :: "int \<Rightarrow> int \<Rightarrow> 'w gpio \<Rightarrow> 'w gpio" where
  "gpio_output channel v g =
     g\<lparr>pin_state := (pin_state g)(channel \<mapsto> (if v \<noteq> 0 then HIGH else LOW))\<rparr>"

definition add_event_detect :: "int \<Rightarrow> int \<Rightarrow> 'w callback \<Rightarrow> 'w gpio \<Rightarrow> 'w gpio" where
  "add_event_detect channel edge cb g =
     g\<lparr>callbacks := (callbacks g)(channel \<mapsto> cb),
       channel_edges := (channel_edges g)(channel \<mapsto> edge)\<rparr>"

definition remove_event_detect :: "int \<Rightarrow> 'w gpio \<Rightarrow> 'w gpio" where
  "remove_event_detect channel g =
     g\<lparr>callbacks := (callbacks g)(channel := None),
       channel_edges := (channel_edges g)(channel := None)\<rparr>"

definition gpio_cleanup :: "int option \<Rightarrow> 'w gpio \<Rightarrow> 'w gpio" where
  "gpio_cleanup channel g =
     (case channel of
        None \<Rightarrow> g\<lparr>callbacks := Map.empty, channel_edges := Map.empty,
                  pin_state := Map.empty, pin_dir := Map.empty\<rparr>
      | Some c \<Rightarrow> g\<lparr>callbacks := (callbacks g)(c := None),
                    channel_edges := (channel_edges g)(c := None),
                    pin_state := (pin_state g)(c := None),
                    pin_dir := (pin_dir g)(c := None)\<rparr>)"

text \<open>
  One Python call of a callback: \<open>cb(channel)\<close> is \<open>call_cb cb (Some channel)\<close>,
  \<open>cb()\<close> is \<open>call_cb cb None\<close>.
\<close>

definition call_cb :: "'w callback \<Rightarrow> int option \<Rightarrow> 'w \<Rightarrow> exn option \<times> 'w" where
  "call_cb cb arg w =
     (if (case arg of Some c \<Rightarrow> accepts_one cb | None \<Rightarrow> accepts_zero cb)
      then body cb arg w
      else (Some (Exn TypeError ''wrong number of positional arguments''), w))"

text \<open>
  \<open>simulate_edge(channel)\<close>: the tables are only read; the result is the exception that
  leaves the call, if any, and the program state after it.
\<close>

definition simulate_edge :: "'w gpio \<Rightarrow> int \<Rightarrow> 'w \<Rightarrow> exn option \<times> 'w" where
  "simulate_edge g channel w =
     (case callbacks g channel of
        None \<Rightarrow> (None, w)
      | Some cb \<Rightarrow>
          (case call_cb cb (Some channel) w of
             (None, w1) \<Rightarrow> (None, w1)
           | (Some e, w1) \<Rightarrow>
               if class_of e = TypeError then call_cb cb None w1 else (Some e, w1)))"

definition registered_channels :: "'w gpio \<Rightarrow> int set" where
  "registered_channels g = dom (callbacks g)"

text \<open>The operations a client of the emulator performs on a pin, for traces.\<close>

datatype pin_op =
  Setup int int "int option" "int option"
| Write int int
| Cleanup "int option"

fun apply_pin_op :: "pin_op \<Rightarrow> 'w gpio \<Rightarrow> 'w gpio" where
  "apply_pin_op (Setup c m p i) g = gpio_setup c m p i g"
| "apply_pin_op (Write c v) g = gpio_output c v g"
| "apply_pin_op (Cleanup c) g = gpio_cleanup c g"

fun apply_pin_ops :: "pin_op list \<Rightarrow> 'w gpio \<Rightarrow> 'w gpio" where
  "apply_pin_ops [] g = g"
| "apply_pin_ops (x # xs) g = apply_pin_ops xs (apply_pin_op x g)"

section \<open>The change watcher (watcher.py)\<close>

text \<open>
  Times are seconds as exact rationals (the source holds them in floats). The watcher's
  two threads meet in the list \<open>_changed\<close> only: the observer thread appends to it
  (\<open>_on_event\<close>), the loop thread reads and clears it once per iteration. A run is
  the interleaving of these two atomic steps. \<open>delivered\<close> is the sequence of payloads
  handed to \<open>on_change\<close>, each as the set the source builds before turning it into a
  list; \<open>wlog\<close> holds the lines given to \<open>logger.error\<close>.
\<close>

record watcher =
  debounce :: rat
  changed :: "string list"
  last_flush :: rat
  delivered :: "string set list"
  wlog :: "string list"

text \<open>\<open>__init__\<close> with \<open>debounce_ms\<close>, then \<open>start()\<close> and the loop's first line at time \<open>t0\<close>.\<close>

definition watcher_start :: "int \<Rightarrow> rat \<Rightarrow> watcher" where
  "watcher_start debounce_ms t0 =
     \<lparr>debounce = of_int debounce_ms / 1000, changed = [], last_flush = t0,
      delivered = [], wlog = []\<rparr>"

definition on_event :: "string \<Rightarrow> watcher \<Rightarrow> watcher" where
  "on_event p w = w\<lparr>changed := changed w @ [p]\<rparr>"

text \<open>
  One iteration of \<open>_debounce_loop\<close> after its sleep, reading the clock as \<open>now\<close>.
  \<open>on_change\<close> tells whether the user's callback raises on a payload.
\<close>

definition debounce_iteration :: "(string set \<Rightarrow> exn option) \<Rightarrow> rat \<Rightarrow> watcher \<Rightarrow> watcher" where
  "debounce_iteration on_change now w =
     (if changed w \<noteq> [] \<and> now - last_flush w \<ge> debounce w then
        let payload = set (changed w);
            w1 = w\<lparr>changed := [], last_flush := now, delivered := delivered w @ [payload]\<rparr>
        in (case on_change payload of
              None \<Rightarrow> w1
            | Some e \<Rightarrow> w1\<lparr>wlog := wlog w1 @ [''Watcher callback error: '' @ str_exn e]\<rparr>)
      else w)"

text \<open>
  A step of a run: a filesystem event (with its arrival time, which the code never
  reads) or one loop iteration with the time it reads.
\<close>

datatype wstep = FsEvent rat string | Check rat

fun watcher_step :: "(string set \<Rightarrow> exn option) \<Rightarrow> wstep \<Rightarrow> watcher \<Rightarrow> watcher" where
  "watcher_step on_change (FsEvent t p) w = on_event p w"
| "watcher_step on_change (Check now) w = debounce_iteration on_change now w"

fun watcher_run :: "(string set \<Rightarrow> exn option) \<Rightarrow> wstep list \<Rightarrow> watcher \<Rightarrow> watcher" where
  "watcher_run on_change [] w = w"
| "watcher_run on_change (s # ss) w = watcher_run on_change ss (watcher_step on_change s w)"

fun step_time :: "wstep \<Rightarrow> rat" where
  "step_time (FsEvent t p) = t"
| "step_time (Check t) = t"

text \<open>
  A schedule the threads can produce: times never go back, and two loop iterations are
  at least the 50 ms sleep apart.
\<close>

fun schedule_ok :: "rat \<Rightarrow> rat \<Rightarrow> wstep list \<Rightarrow> bool" where
  "schedule_ok t lastcheck [] = True"
| "schedule_ok t lastcheck (FsEvent t' p # ss) = (t \<le> t' \<and> schedule_ok t' lastcheck ss)"
| "schedule_ok t lastcheck (Check t' # ss) =
     (t \<le> t' \<and> lastcheck + 1 / 20 \<le> t' \<and> schedule_ok t' t' ss)"

fun event_times :: "wstep list \<Rightarrow> rat list" where
  "event_times [] = []"
| "event_times (FsEvent t p # ss) = t # event_times ss"
| "event_times (Check t # ss) = event_times ss"

fun gaps_below :: "rat \<Rightarrow> rat list \<Rightarrow> bool" where
  "gaps_below d (a # b # ts) = (b - a < d \<and> gaps_below d (b # ts))"
| "gaps_below d ts = True"

section \<open>The module bridge (menulcd_bridge.py)\<close>

subsection \<open>The hosted module, as the bridge can observe it\<close>

text \<open>
  Values the hosted instance holds or returns. An image is a reference into the store of
  PIL images, so that two holders of one reference see each other's writes.
\<close>

datatype pyval = PNone | PInt int | PStr string | PImage nat

record pil_image =
  width :: nat
  height :: nat
  pixels :: "nat list"

type_synonym store = "nat \<Rightarrow> pil_image"

text \<open>
  The instance dictionary of the hosted object (\<open>vars(inst)\<close>, in insertion order) and
  that of its nested \<open>LCD\<close> object. Both are association lists: the first binding of a
  name is the attribute's value.
\<close>

record hdata =
  inst_vars :: "(string \<times> pyval) list"
  lcd_vars :: "(string \<times> pyval) list"

text \<open>
  A method of the hosted class takes its arguments, may rewrite the instance dictionaries
  and the image store, and returns a value or raises. Which methods the class has, and
  whether the instance has an \<open>LCD\<close> object (\<open>lcd_methods\<close> is \<open>None\<close> when the attribute
  is missing or \<open>None\<close>), is fixed when the instance is built. Attributes are plain data
  or methods; an object whose truth value is false is not modelled.
\<close>

type_synonym pymethod = "pyval list \<Rightarrow> hdata \<times> store \<Rightarrow> (exn + pyval) \<times> hdata \<times> store"

record hosted =
  methods :: "string \<rightharpoonup> pymethod"
  lcd_methods :: "(string \<rightharpoonup> pymethod) option"
  data :: hdata

text \<open>What \<open>getattr(obj, name, None)\<close> finds; a method comes bound to its object.\<close>

datatype attr = Absent | Value pyval | Callable hosted pymethod

fun is_callable :: "attr \<Rightarrow> bool" where
  "is_callable (Callable h m) = True"
| "is_callable a = False"

text \<open>The instance dictionary shadows the class; \<open>getattr(None, name, None)\<close> is \<open>None\<close>.\<close>

definition getattr_inst :: "hosted option \<Rightarrow> string \<Rightarrow> attr" where
  "getattr_inst i name =
     (case i of
        None \<Rightarrow> Absent
      | Some h \<Rightarrow>
          (case map_of (inst_vars (data h)) name of
             Some v \<Rightarrow> Value v
           | None \<Rightarrow> (case methods h name of Some m \<Rightarrow> Callable h m | None \<Rightarrow> Absent)))"

definition getattr_lcd :: "hosted \<Rightarrow> (string \<rightharpoonup> pymethod) \<Rightarrow> string \<Rightarrow> attr" where
  "getattr_lcd h lm name =
     (case map_of (lcd_vars (data h)) name of
        Some v \<Rightarrow> Value v
      | None \<Rightarrow> (case lm name of Some m \<Rightarrow> Callable h m | None \<Rightarrow> Absent))"

subsection \<open>The bridge object and the process state its methods act on\<close>

text \<open>
  The attributes of \<open>MenuLCDBridge\<close>, then the parts of the process its methods read and
  write: the image store, \<open>sys.path\<close>, the working directory, standard output and the
  logger's records (level and text). \<open>calls\<close> is an observation, not a field of the
  source: the name and arguments of every method of the hosted instance the bridge has
  called, in order.
\<close>

record bridge =
  errors :: "string list"
  repo_path :: string
  menulcd_module :: "nat option"
  inst :: "hosted option"
  native_size :: "nat \<times> nat"
  last_frame :: "nat option"
  created_ts :: rat
  display_profile :: "string option"
  heap :: store
  sys_path :: "string list"
  cwd :: string
  stdout :: "string list"
  logger :: "(string \<times> string) list"
  calls :: "(string \<times> pyval list) list"

definition push_error :: "string \<Rightarrow> bridge \<Rightarrow> bridge" where
  "push_error msg b = b\<lparr>errors := errors b @ [msg], logger := logger b @ [(''error'', msg)]\<rparr>"

definition print_line :: "string \<Rightarrow> bridge \<Rightarrow> bridge" where
  "print_line s b = b\<lparr>stdout := stdout b @ [s]\<rparr>"

text \<open>Calling a bound method: the call is recorded, the instance and the store updated.\<close>

definition invoke :: "string \<Rightarrow> hosted \<Rightarrow> pymethod \<Rightarrow> pyval list \<Rightarrow> bridge \<Rightarrow> (exn + pyval) \<times> bridge" where
  "invoke name h m args b =
     (case m args (data h, heap b) of
        (r, d, hp) \<Rightarrow>
          (r, b\<lparr>inst := Some (h\<lparr>data := d\<rparr>), heap := hp, calls := calls b @ [(name, args)]\<rparr>))"

definition native_size_of :: "bridge \<Rightarrow> nat \<times> nat" where
  "native_size_of b = native_size b"

text \<open>\<open>pop_errors()\<close>\<close>

definition pop_errors :: "bridge \<Rightarrow> string list \<times> bridge" where
  "pop_errors b = (errors b, b\<lparr>errors := []\<rparr>)"

subsection \<open>Frame extraction\<close>

text \<open>The first loop of \<open>_extract_frame\<close>, over the accessor names.\<close>

fun extract_named :: "string list \<Rightarrow> bridge \<Rightarrow> nat option \<times> bridge" where
  "extract_named [] b = (None, b)"
| "extract_named (name # rest) b =
     (case getattr_inst (inst b) name of
        Callable h m \<Rightarrow>
          (case invoke name h m [] b of
             (Inr (PImage r), b1) \<Rightarrow> (Some r, b1)
           | (Inr v, b1) \<Rightarrow> extract_named rest b1
           | (Inl e, b1) \<Rightarrow> extract_named rest b1)
      | Value (PImage r) \<Rightarrow> (Some r, b)
      | Value v \<Rightarrow> extract_named rest b
      | Absent \<Rightarrow> extract_named rest b)"

text \<open>\<open>for _, v in vars(obj).items(): if isinstance(v, Image.Image): return v\<close>\<close>

fun first_image :: "(string \<times> pyval) list \<Rightarrow> nat option" where
  "first_image [] = None"
| "first_image ((k, PImage r) # kvs) = Some r"
| "first_image ((k, v) # kvs) = first_image kvs"

text \<open>The loop over the direct attributes of the nested \<open>LCD\<close> object.\<close>

fun lcd_named :: "string list \<Rightarrow> (string \<times> pyval) list \<Rightarrow> nat option" where
  "lcd_named [] kvs = None"
| "lcd_named (name # rest) kvs =
     (case map_of kvs name of
        Some (PImage r) \<Rightarrow> Some r
      | _ \<Rightarrow> lcd_named rest kvs)"

text \<open>
  \<open>_extract_frame(self.instance)\<close>. With no instance the accessor loop finds nothing and
  \<open>vars(None)\<close> raises \<open>TypeError\<close>.
\<close>

definition extract_frame :: "bridge \<Rightarrow> (exn + nat option) \<times> bridge" where
  "extract_frame b =
     (case extract_named [''get_frame'', ''get_framebuffer'', ''framebuffer'', ''image'', ''frame''] b of
        (Some r, b1) \<Rightarrow> (Inr (Some r), b1)
      | (None, b1) \<Rightarrow>
          (case inst b1 of
             None \<Rightarrow> (Inl (Exn TypeError ''vars() argument must have __dict__ attribute''), b1)
           | Some h \<Rightarrow>
               (case first_image (inst_vars (data h)) of
                  Some r \<Rightarrow> (Inr (Some r), b1)
                | None \<Rightarrow>
                    (case lcd_methods h of
                       None \<Rightarrow> (Inr None, b1)
                     | Some lm \<Rightarrow>
                         (case lcd_named [''frame'', ''image'', ''framebuffer'', ''newimage'', ''buffer'']
                                 (lcd_vars (data h)) of
                            Some r \<Rightarrow> (Inr (Some r), b1)
                          | None \<Rightarrow> (Inr (first_image (lcd_vars (data h))), b1))))))"

text \<open>
  \<open>get_frame()\<close>: the body of the \<open>try\<close>, then the handler of \<open>except Exception\<close>.
  The value returned is the reference itself.
\<close>

definition get_frame_try :: "bridge \<Rightarrow> (exn + nat option) \<times> bridge" where
  "get_frame_try b =
     (case extract_frame b of
        (Inl e, b1) \<Rightarrow> (Inl e, b1)
      | (Inr None, b1) \<Rightarrow> (Inr (last_frame b1), b1)
      | (Inr (Some r), b1) \<Rightarrow> (Inr (Some r), b1\<lparr>last_frame := Some r\<rparr>))"

definition get_frame :: "bridge \<Rightarrow> (exn + nat option) \<times> bridge" where
  "get_frame b =
     (case get_frame_try b of
        (Inl e, b1) \<Rightarrow>
          (let b2 = push_error (''get_frame failed: '' @ str_exn e) b1
           in (Inr (last_frame b2), b2))
      | (Inr f, b1) \<Rightarrow> (Inr f, b1))"

subsection \<open>The render step\<close>

text \<open>The two loops of \<open>step()\<close>; the flag tells that the method returned from inside the loop.\<close>

fun step_methods :: "string list \<Rightarrow> bridge \<Rightarrow> bool \<times> bridge" where
  "step_methods [] b = (False, b)"
| "step_methods (name # rest) b =
     (case getattr_inst (inst b) name of
        Callable h m \<Rightarrow>
          (case invoke name h m [] b of
             (Inr v, b1) \<Rightarrow> (True, b1)
           | (Inl e, b1) \<Rightarrow>
               step_methods rest (push_error (name @ ''() error: '' @ str_exn e) b1))
      | Value v \<Rightarrow> step_methods rest b
      | Absent \<Rightarrow> step_methods rest b)"

fun step_lcd :: "(string \<rightharpoonup> pymethod) \<Rightarrow> string list \<Rightarrow> bridge \<Rightarrow> bool \<times> bridge" where
  "step_lcd lm [] b = (False, b)"
| "step_lcd lm (lname # rest) b =
     (case inst b of
        None \<Rightarrow> (False, b)
      | Some h \<Rightarrow>
          (case getattr_lcd h lm lname of
             Callable h' m \<Rightarrow>
               (case invoke (''LCD.'' @ lname) h' m [] b of
                  (Inr v, b1) \<Rightarrow> (True, b1)
                | (Inl e, b1) \<Rightarrow>
                    step_lcd lm rest (push_error (''LCD.'' @ lname @ ''() error: '' @ str_exn e) b1))
           | Value v \<Rightarrow> step_lcd lm rest b
           | Absent \<Rightarrow> step_lcd lm rest b))"

definition step :: "bridge \<Rightarrow> bridge" where
  "step b =
     (case inst b of
        None \<Rightarrow> b
      | Some h0 \<Rightarrow>
          (case step_methods [''render'', ''draw'', ''update'', ''tick'', ''loop'', ''paint'',
                              ''display'', ''refresh'', ''render_menu'', ''renderMenu''] b of
             (True, b1) \<Rightarrow> b1
           | (False, b1) \<Rightarrow>
               (case inst b1 of
                  None \<Rightarrow> b1
                | Some h \<Rightarrow>
                    (case lcd_methods h of
                       None \<Rightarrow> b1
                     | Some lm \<Rightarrow>
                         snd (step_lcd lm [''display'', ''refresh'', ''show'', ''update'',
                                           ''LCD_Display'', ''LCD_Show''] b1)))))"

subsection \<open>Capability dispatch\<close>

text \<open>
  The \<open>for\<close> loop of \<open>_call_if_exists\<close>: \<open>Inr True\<close> when a candidate returned,
  \<open>Inr False\<close> when the loop ran out of names, \<open>Inl e\<close> when a candidate raised and
  \<open>swallow\<close> is off.
\<close>

fun call_candidates :: "string list \<Rightarrow> pyval list \<Rightarrow> bool \<Rightarrow> bridge \<Rightarrow> (exn + bool) \<times> bridge" where
  "call_candidates [] args swallow b = (Inr False, b)"
| "call_candidates (name # rest) args swallow b =
     (case getattr_inst (inst b) name of
        Callable h f \<Rightarrow>
          (case invoke name h f args b of
             (Inr v, b1) \<Rightarrow> (Inr True, b1)
           | (Inl e, b1) \<Rightarrow>
               (let b2 = push_error (name @ '' error: '' @ str_exn e) b1
                in if swallow then call_candidates rest args swallow b2 else (Inl e, b2)))
      | Value v \<Rightarrow> call_candidates rest args swallow b
      | Absent \<Rightarrow> call_candidates rest args swallow b)"

definition call_if_exists :: "string list \<Rightarrow> pyval list \<Rightarrow> bool \<Rightarrow> bridge \<Rightarrow> (exn + bool) \<times> bridge" where
  "call_if_exists candidates args swallow b =
     (case call_candidates candidates args swallow b of
        (Inl e, b1) \<Rightarrow> (Inl e, b1)
      | (Inr True, b1) \<Rightarrow> (Inr True, b1)
      | (Inr False, b1) \<Rightarrow>
          (case getattr_inst (inst b1) ''handle_key'' of
             Callable h handler \<Rightarrow>
               (case candidates of
                  [] \<Rightarrow> (Inr False, b1)
                | c # cs \<Rightarrow>
                    (case invoke ''handle_key'' h handler [PStr c] b1 of
                       (Inr v, b2) \<Rightarrow> (Inr True, b2)
                     | (Inl e, b2) \<Rightarrow>
                         (let b3 = push_error (''handle_key error: '' @ str_exn e) b2
                          in if swallow then (Inr False, b3) else (Inl e, b3))))
           | Value v \<Rightarrow> (Inr False, b1)
           | Absent \<Rightarrow> (Inr False, b1)))"

text \<open>
  The six action methods the class ends up with (its second definitions of
  \<open>action_up\<close> ... \<open>action_back\<close> replace the first ones) share one shape: print a
  banner, try the semantic method inside \<open>try\<close>, and on absence or failure go to
  \<open>_call_if_exists\<close> with \<open>swallow\<close> off.
\<close>

definition semantic_action ::
  "string \<Rightarrow> string \<Rightarrow> pyval list \<Rightarrow> string \<Rightarrow> string list \<Rightarrow> bridge \<Rightarrow> (exn + unit) \<times> bridge" where
  "semantic_action banner primary args label fallbacks b =
     (let b0 = print_line banner b
      in case (case getattr_inst (inst b0) primary of
                 Callable h f \<Rightarrow>
                   (case invoke primary h f args b0 of
                      (Inr v, b1) \<Rightarrow> (True, b1)
                    | (Inl e, b1) \<Rightarrow> (False, push_error (label @ '' error: '' @ str_exn e) b1))
               | Value v \<Rightarrow> (False, b0)
               | Absent \<Rightarrow> (False, b0)) of
           (True, b1) \<Rightarrow> (Inr (), b1)
         | (False, b1) \<Rightarrow>
             (case call_if_exists fallbacks [] False b1 of
                (Inl e, b2) \<Rightarrow> (Inl e, b2)
              | (Inr r, b2) \<Rightarrow> (Inr (), b2)))"

definition dq :: string where "dq = [CHR 0x22]"
definition sq :: string where "sq = [CHR 0x27]"

definition up_banner :: string where
  "up_banner = ''[BRIDGE] action_up -> change_pointer(-1)''"
definition down_banner :: string where
  "down_banner = ''[BRIDGE] action_down -> change_pointer(+1)''"
definition left_banner :: string where
  "left_banner = ''[BRIDGE] action_left -> change_value('' @ dq @ ''LEFT'' @ dq @ '')''"
definition right_banner :: string where
  "right_banner = ''[BRIDGE] action_right -> change_value('' @ dq @ ''RIGHT'' @ dq @ '')''"
definition enter_banner :: string where
  "enter_banner = ''[BRIDGE] action_enter -> enter_menu()''"
definition back_banner :: string where
  "back_banner = ''[BRIDGE] action_back -> go_back()''"

definition action_up :: "bridge \<Rightarrow> (exn + unit) \<times> bridge" where
  "action_up = semantic_action up_banner ''change_pointer'' [PInt (- 1)] ''change_pointer(-1)''
     [''button_up'', ''on_up'', ''nav_up'', ''up'']"

definition action_down :: "bridge \<Rightarrow> (exn + unit) \<times> bridge" where
  "action_down = semantic_action down_banner ''change_pointer'' [PInt 1] ''change_pointer(1)''
     [''button_down'', ''on_down'', ''nav_down'', ''down'']"

definition action_left :: "bridge \<Rightarrow> (exn + unit) \<times> bridge" where
  "action_left = semantic_action left_banner ''change_value'' [PStr ''LEFT'']
     (''change_value('' @ sq @ ''LEFT'' @ sq @ '')'')
     [''button_left'', ''on_left'', ''nav_left'', ''left'']"

definition action_right :: "bridge \<Rightarrow> (exn + unit) \<times> bridge" where
  "action_right = semantic_action right_banner ''change_value'' [PStr ''RIGHT'']
     (''change_value('' @ sq @ ''RIGHT'' @ sq @ '')'')
     [''button_right'', ''on_right'', ''nav_right'', ''right'']"

definition action_enter :: "bridge \<Rightarrow> (exn + unit) \<times> bridge" where
  "action_enter = semantic_action enter_banner ''enter_menu'' [] ''enter_menu()''
     [''button_enter'', ''on_enter'', ''select'', ''enter'', ''ok'']"

definition action_back :: "bridge \<Rightarrow> (exn + unit) \<times> bridge" where
  "action_back = semantic_action back_banner ''go_back'' [] ''go_back()''
     [''button_back'', ''on_back'', ''back'', ''cancel'']"

text \<open>\<open>for _ in range(n): act()\<close>: an exception leaves the loop.\<close>

fun repeat_action :: "nat \<Rightarrow> (bridge \<Rightarrow> (exn + unit) \<times> bridge) \<Rightarrow> bridge \<Rightarrow> (exn + unit) \<times> bridge" where
  "repeat_action 0 act b = (Inr (), b)"
| "repeat_action (Suc n) act b =
     (case act b of
        (Inl e, b1) \<Rightarrow> (Inl e, b1)
      | (Inr u, b1) \<Rightarrow> repeat_action n act b1)"

definition action_home :: "bridge \<Rightarrow> (exn + unit) \<times> bridge" where
  "action_home b =
     (case call_if_exists [''home'', ''go_home'', ''to_root'', ''menu_home''] [] True
             (print_line ''[BRIDGE] action_home'' b) of
        (Inl e, b1) \<Rightarrow> (Inl e, b1)
      | (Inr True, b1) \<Rightarrow> (Inr (), b1)
      | (Inr False, b1) \<Rightarrow> repeat_action 5 action_back b1)"

text \<open>\<open>str(delta)\<close> for an integer.\<close>

fun digits :: "nat \<Rightarrow> string" where
  "digits n = (if n < 10 then [''0123456789'' ! n] else digits (n div 10) @ [''0123456789'' ! (n mod 10)])"

definition str_int :: "int \<Rightarrow> string" where
  "str_int i = (if i < 0 then ''-'' @ digits (nat (- i)) else digits (nat i))"

definition action_encoder :: "int \<Rightarrow> bridge \<Rightarrow> (exn + unit) \<times> bridge" where
  "action_encoder delta b =
     (case call_if_exists [''encoder'', ''on_encoder'', ''rotate'', ''on_rotate''] [PInt delta] True
             (print_line (''[BRIDGE] action_encoder delta='' @ str_int delta) b) of
        (Inl e, b1) \<Rightarrow> (Inl e, b1)
      | (Inr True, b1) \<Rightarrow> (Inr (), b1)
      | (Inr False, b1) \<Rightarrow>
          (if delta > 0 then repeat_action (nat \<bar>delta\<bar>) action_down b1
           else if delta < 0 then repeat_action (nat \<bar>delta\<bar>) action_up b1
           else (Inr (), b1)))"

datatype action = Up | Down | Left | Right | Enter | Back

fun run_action :: "action \<Rightarrow> bridge \<Rightarrow> (exn + unit) \<times> bridge" where
  "run_action Up = action_up"
| "run_action Down = action_down"
| "run_action Left = action_left"
| "run_action Right = action_right"
| "run_action Enter = action_enter"
| "run_action Back = action_back"

text \<open>The names an action tries, in the order it tries them, and what it passes.\<close>

fun primary_of :: "action \<Rightarrow> string" where
  "primary_of Up = ''change_pointer''"
| "primary_of Down = ''change_pointer''"
| "primary_of Left = ''change_value''"
| "primary_of Right = ''change_value''"
| "primary_of Enter = ''enter_menu''"
| "primary_of Back = ''go_back''"

fun primary_args :: "action \<Rightarrow> pyval list" where
  "primary_args Up = [PInt (- 1)]"
| "primary_args Down = [PInt 1]"
| "primary_args Left = [PStr ''LEFT'']"
| "primary_args Right = [PStr ''RIGHT'']"
| "primary_args Enter = []"
| "primary_args Back = []"

fun fallbacks_of :: "action \<Rightarrow> string list" where
  "fallbacks_of Up = [''button_up'', ''on_up'', ''nav_up'', ''up'']"
| "fallbacks_of Down = [''button_down'', ''on_down'', ''nav_down'', ''down'']"
| "fallbacks_of Left = [''button_left'', ''on_left'', ''nav_left'', ''left'']"
| "fallbacks_of Right = [''button_right'', ''on_right'', ''nav_right'', ''right'']"
| "fallbacks_of Enter = [''button_enter'', ''on_enter'', ''select'', ''enter'', ''ok'']"
| "fallbacks_of Back = [''button_back'', ''on_back'', ''back'', ''cancel'']"

definition resolution_list :: "action \<Rightarrow> string list" where
  "resolution_list a = primary_of a # fallbacks_of a @ [''handle_key'']"

definition candidate_args :: "action \<Rightarrow> string \<Rightarrow> pyval list" where
  "candidate_args a name =
     (if name = primary_of a then primary_args a
      else if name = ''handle_key'' then [PStr (hd (fallbacks_of a))]
      else [])"

definition exposed :: "bridge \<Rightarrow> string \<Rightarrow> bool" where
  "exposed b name = is_callable (getattr_inst (inst b) name)"

fun banner_of :: "action \<Rightarrow> string" where
  "banner_of Up = up_banner"
| "banner_of Down = down_banner"
| "banner_of Left = left_banner"
| "banner_of Right = right_banner"
| "banner_of Enter = enter_banner"
| "banner_of Back = back_banner"

subsection \<open>Construction and reload\<close>

text \<open>
  The fields of the upstream argument namespace the bridge writes.
\<close>

record args =
  appmode :: string
  leddriver :: string
  webinterface :: string
  display :: string
  fontdir :: string

text \<open>
  What one run of \<open>_import_and_create\<close> meets outside the bridge: the filesystem, the
  result of (re)importing each upstream module, the environment variable
  \<open>PIANO_LED_FONTDIR\<close> and the clock.
  \<^item> \<open>argument_parser\<close>: the import raises, or the module has no \<open>ArgumentParser\<close>
    (\<open>None\<close>), or it has one and \<open>Parser().args\<close> raises or gives the namespace;
  \<^item> \<open>platform_import\<close>: the exception importing \<open>lib.platform\<close> raises, if any (the
    \<open>Hotspot\<close> patch that follows changes nothing the model holds);
  \<^item> \<open>component_initializer\<close>: the import raises, or the module has no
    \<open>ComponentInitializer\<close>, or \<open>CI(args)\<close> raises or gives the object whose \<open>menu\<close>
    is the rendering instance (possibly \<open>None\<close>), allocating images in the store;
  \<^item> \<open>menulcd\<close>: the import of \<open>lib.menulcd\<close> raises or gives the module.
  The \<open>mido\<close> stub, \<open>sys.modules\<close> and the save and restore of \<open>sys.argv\<close> are left
  out: nothing modelled here reads them.
\<close>

record env =
  dir_exists :: "string \<Rightarrow> bool"
  path_exists :: "string \<Rightarrow> bool"
  argument_parser :: "exn + (exn + args) option"
  platform_import :: "exn option"
  component_initializer :: "exn + (args \<Rightarrow> store \<Rightarrow> (exn + hosted option) \<times> store) option"
  menulcd :: "exn + nat"
  fontdir_env :: string
  clock :: rat

text \<open>The loop over the candidate font directories.\<close>

fun pick_fontdir :: "env \<Rightarrow> string list \<Rightarrow> string option" where
  "pick_fontdir ev [] = None"
| "pick_fontdir ev (d # ds) =
     (if d = [] then pick_fontdir ev ds
      else if path_exists ev (d @ ''/FreeSansBold.ttf'') \<and> path_exists ev (d @ ''/FreeMonoBold.ttf'')
      then Some d
      else pick_fontdir ev ds)"

definition build_args :: "env \<Rightarrow> bridge \<Rightarrow> args \<Rightarrow> args" where
  "build_args ev b a =
     (let a1 = a\<lparr>appmode := ''app'', leddriver := ''emu'', webinterface := ''false''\<rparr>;
          a2 = (case display_profile b of
                  None \<Rightarrow> a1
                | Some p \<Rightarrow> if p = ''1in44'' \<or> p = ''1in3'' then a1\<lparr>display := p\<rparr> else a1)
      in case pick_fontdir ev [repo_path b @ ''/fonts'', repo_path b @ ''/Fonts'', fontdir_env ev] of
           None \<Rightarrow> a2
         | Some d \<Rightarrow> a2\<lparr>fontdir := d\<rparr>)"

definition missing_fonts_msg :: string where
  "missing_fonts_msg = ''Missing fonts FreeSansBold.ttf / FreeMonoBold.ttf. '' @
     ''Place them in <repo>/fonts or set PIANO_LED_FONTDIR.''"

text \<open>
  The body of the \<open>try\<close> of \<open>_import_and_create\<close>, in two parts. The first runs
  from the file check to \<open>ci = CI(args)\<close> and gives \<open>ci.menu\<close>.
\<close>

definition build_instance :: "env \<Rightarrow> bridge \<Rightarrow> (exn + hosted option) \<times> bridge" where
  "build_instance ev b =
     (if \<not> path_exists ev (repo_path b @ ''/lib/menulcd.py'')
      then (Inl (Exn BridgeError (''Missing file: '' @ repo_path b @ ''/lib/menulcd.py'')), b)
      else case argument_parser ev of
        Inl e \<Rightarrow> (Inl e, b)
      | Inr None \<Rightarrow> (Inl (Exn BridgeError ''lib.argument_parser.ArgumentParser not found''), b)
      | Inr (Some parser) \<Rightarrow>
      (case platform_import ev of
        Some e \<Rightarrow> (Inl e, b)
      | None \<Rightarrow>
      (case component_initializer ev of
        Inl e \<Rightarrow> (Inl e, b)
      | Inr comp_init \<Rightarrow>
      (case menulcd ev of
        Inl e \<Rightarrow> (Inl e, b)
      | Inr md \<Rightarrow>
      (let b1 = b\<lparr>menulcd_module := Some md\<rparr>
       in case parser of
        Inl e \<Rightarrow> (Inl e, b1)
      | Inr parsed \<Rightarrow>
      (case comp_init of
        None \<Rightarrow>
          (Inl (Exn BridgeError ''lib.component_initializer.ComponentInitializer not found''), b1)
      | Some ci \<Rightarrow>
      (case ci (build_args ev b1 parsed) (heap b1) of
        (Inl e, hp) \<Rightarrow>
          (Inl e,
           if sublist ''FreeSansBold.ttf'' (str_exn e) \<or> sublist ''FreeMonoBold.ttf'' (str_exn e)
           then push_error missing_fonts_msg (b1\<lparr>heap := hp\<rparr>)
           else b1\<lparr>heap := hp\<rparr>)
      | (Inr menu, hp) \<Rightarrow> (Inr menu, b1\<lparr>heap := hp\<rparr>))))))))"

text \<open>
  The second part: \<open>self.instance = ci.menu\<close>, one render step, and the probe for the
  native size.
\<close>

definition install_and_probe :: "env \<Rightarrow> hosted option \<Rightarrow> bridge \<Rightarrow> (exn + unit) \<times> bridge" where
  "install_and_probe ev menu b =
     (case extract_frame (step (b\<lparr>inst := menu\<rparr>)) of
        (Inl e, b3) \<Rightarrow> (Inl e, b3)
      | (Inr None, b3) \<Rightarrow> (Inr (), b3\<lparr>created_ts := clock ev\<rparr>)
      | (Inr (Some r), b3) \<Rightarrow>
          (Inr (), b3\<lparr>native_size := (width (heap b3 r), height (heap b3 r)),
                      created_ts := clock ev\<rparr>))"

definition import_and_create_try :: "env \<Rightarrow> bridge \<Rightarrow> (exn + unit) \<times> bridge" where
  "import_and_create_try ev b =
     (case build_instance ev b of
        (Inl e, b1) \<Rightarrow> (Inl e, b1)
      | (Inr menu, b1) \<Rightarrow> install_and_probe ev menu b1)"

text \<open>
  \<open>_import_and_create()\<close>: the repository goes on \<open>sys.path\<close>, \<open>os.chdir\<close> raises when
  the directory is missing, and the \<open>finally\<close> puts the working directory back.
\<close>

definition import_and_create :: "env \<Rightarrow> bridge \<Rightarrow> (exn + unit) \<times> bridge" where
  "import_and_create ev b =
     (let r = repo_path b;
          b0 = (if r \<in> set (sys_path b) then b else b\<lparr>sys_path := r # sys_path b\<rparr>);
          old_cwd = cwd b0
      in if \<not> dir_exists ev r
         then (Inl (Exn OSError (''No such file or directory: '' @ r)), b0)
         else case import_and_create_try ev (b0\<lparr>cwd := r\<rparr>) of
                (res, b1) \<Rightarrow> (res, b1\<lparr>cwd := old_cwd\<rparr>))"

text \<open>\<open>reload()\<close>\<close>

definition reload :: "env \<Rightarrow> bridge \<Rightarrow> (exn + unit) \<times> bridge" where
  "reload ev b =
     (case import_and_create ev (b\<lparr>logger := logger b @ [(''info'', ''Reloading MenuLCD...'')]\<rparr>) of
        (Inl e, b1) \<Rightarrow> (Inl e, push_error (''Reload failed: '' @ str_exn e) b1)
      | (Inr u, b1) \<Rightarrow> (Inr u, b1))"

text \<open>\<open>set_repo(new_repo)\<close>\<close>

definition set_repo :: "string \<Rightarrow> env \<Rightarrow> bridge \<Rightarrow> (exn + unit) \<times> bridge" where
  "set_repo new_repo ev b = reload ev (b\<lparr>repo_path := new_repo\<rparr>)"

text \<open>\<open>set_display_profile(profile, reload=True)\<close>\<close>

definition invalid_profile_msg :: string where
  "invalid_profile_msg = ''Invalid display profile (expected '' @ sq @ ''1in44'' @ sq @ '' or '' @
     sq @ ''1in3'' @ sq @ '' or None)''"

definition set_display_profile :: "string option \<Rightarrow> bool \<Rightarrow> env \<Rightarrow> bridge \<Rightarrow> (exn + unit) \<times> bridge" where
  "set_display_profile profile do_reload ev b =
     (if profile \<noteq> None \<and> profile \<noteq> Some ''1in44'' \<and> profile \<noteq> Some ''1in3''
      then (Inl (Exn BridgeError invalid_profile_msg), b)
      else let b1 = b\<lparr>display_profile := profile\<rparr>
           in if do_reload then reload ev b1 else (Inr (), b1))"

text \<open>
  \<open>__init__(repo_path, logger, display_profile)\<close> in a process whose image store,
  \<open>sys.path\<close> and working directory are given. When the result is \<open>Inl\<close> the
  constructor raised and no bridge object exists.
\<close>

definition fresh_bridge :: "string \<Rightarrow> string option \<Rightarrow> store \<Rightarrow> string list \<Rightarrow> string \<Rightarrow> bridge" where
  "fresh_bridge rp dp hp sp wd =
     \<lparr>errors = [], repo_path = rp, menulcd_module = None, inst = None,
      native_size = (320, 240), last_frame = None, created_ts = 0, display_profile = dp,
      heap = hp, sys_path = sp, cwd = wd, stdout = [], logger = [], calls = []\<rparr>"

definition bridge_init ::
  "env \<Rightarrow> string \<Rightarrow> string option \<Rightarrow> store \<Rightarrow> string list \<Rightarrow> string \<Rightarrow> (exn + unit) \<times> bridge" where
  "bridge_init ev rp dp hp sp wd = import_and_create ev (fresh_bridge rp dp hp sp wd)"

subsection \<open>Sequences of calls on one bridge\<close>

text \<open>
  The calls a client makes on the public API, one after the other; an exception that
  leaves a call is the client's to catch, and the bridge stays as the call left it.
\<close>

datatype bridge_op =
  GetFrame
| Step
| Act action
| Home
| Encoder int
| Reload env
| SetRepo string env
| SetDisplayProfile "string option" bool env
| PopErrors

fun run_op :: "bridge_op \<Rightarrow> bridge \<Rightarrow> bridge" where
  "run_op GetFrame b = snd (get_frame b)"
| "run_op Step b = step b"
| "run_op (Act a) b = snd (run_action a b)"
| "run_op Home b = snd (action_home b)"
| "run_op (Encoder d) b = snd (action_encoder d b)"
| "run_op (Reload ev) b = snd (reload ev b)"
| "run_op (SetRepo p ev) b = snd (set_repo p ev b)"
| "run_op (SetDisplayProfile p r ev) b = snd (set_display_profile p r ev b)"
| "run_op PopErrors b = snd (pop_errors b)"

fun run_ops :: "bridge_op list \<Rightarrow> bridge \<Rightarrow> bridge" where
  "run_ops [] b = b"
| "run_ops (x # xs) b = run_ops xs (run_op x b)"

text \<open>What each \<open>get_frame()\<close> of a sequence returned, in order.\<close>

fun frames_returned :: "bridge_op list \<Rightarrow> bridge \<Rightarrow> (exn + nat option) list" where
  "frames_returned [] b = []"
| "frames_returned (GetFrame # xs) b = fst (get_frame b) # frames_returned xs (run_op GetFrame b)"
| "frames_returned (x # xs) b = frames_returned xs (run_op x b)"

section \<open>Concrete callbacks, pins and schedules\<close>

definition RISING :: int where "RISING = 5"
definition FALLING :: int where "FALLING = 6"
definition BOTH :: int where "BOTH = 7"

text \<open>
  A callback that counts its own runs: the body of \<open>cb\<close>, which also adds one to a
  counter kept beside the program state.
\<close>

definition counted :: "'w callback \<Rightarrow> (nat \<times> 'w) callback" where
  "counted cb =
     \<lparr>accepts_one = accepts_one cb, accepts_zero = accepts_zero cb,
      body = (\<lambda>arg nw. case body cb arg (snd nw) of (r, w') \<Rightarrow> (r, (Suc (fst nw), w')))\<rparr>"

definition returning_body :: "int option \<Rightarrow> unit \<Rightarrow> exn option \<times> unit" where
  "returning_body arg w = (None, w)"

text \<open>\<open>def cb(channel): ...\<close> and \<open>def cb(): ...\<close>\<close>

definition one_param_cb :: "unit callback" where
  "one_param_cb = \<lparr>accepts_one = True, accepts_zero = False, body = returning_body\<rparr>"

definition zero_param_cb :: "unit callback" where
  "zero_param_cb = \<lparr>accepts_one = False, accepts_zero = True, body = returning_body\<rparr>"

text \<open>A user callback that returns normally on every payload.\<close>

definition quiet_callback :: "string set \<Rightarrow> exn option" where
  "quiet_callback payload = None"

text \<open>
  A burst: events that all arrive between two consecutive loop iterations, then the
  iteration that follows them, reading the clock as \<open>now\<close>.
\<close>

definition burst :: "(rat \<times> string) list \<Rightarrow> rat \<Rightarrow> wstep list" where
  "burst evs now = map (\<lambda>tp. FsEvent (fst tp) (snd tp)) evs @ [Check now]"

text \<open>
  Two events 100 ms apart, debounce 200 ms, the loop waking every 50 ms: one iteration
  falls between the two events.
\<close>

definition split_burst :: "wstep list" where
  "split_burst =
     [Check 1, FsEvent 1 ''a.py'', Check (21/20), Check (11/10), FsEvent (11/10) ''b.py'',
      Check (23/20), Check (6/5), Check (5/4)]"

section \<open>Auxiliary notions for the bridge\<close>

text \<open>
  What the parts of the bridge that neither print nor assign a frame leave alone: they may
  extend the error list, the logger and the record of calls, and nothing else; and the
  instance and the image store change only when a method of the instance has been called.
\<close>

definition keeps :: "bridge \<Rightarrow> bridge \<Rightarrow> bool" where
  "keeps b b' =
     (last_frame b' = last_frame b \<and> repo_path b' = repo_path b \<and>
      display_profile b' = display_profile b \<and> stdout b' = stdout b \<and>
      native_size b' = native_size b \<and> created_ts b' = created_ts b \<and>
      menulcd_module b' = menulcd_module b \<and> sys_path b' = sys_path b \<and> cwd b' = cwd b \<and>
      prefix (errors b) (errors b') \<and> prefix (logger b) (logger b') \<and>
      prefix (calls b) (calls b') \<and>
      (heap b' = heap b \<and> inst b' = inst b \<or> length (calls b) < length (calls b')))"

text \<open>
  Calling the attribute \<open>name\<close> of the current instance with \<open>args\<close>, as Python
  evaluates \<open>getattr(self.instance, name)(*args)\<close>.
\<close>

definition invoke_named :: "string \<Rightarrow> pyval list \<Rightarrow> bridge \<Rightarrow> (exn + pyval) \<times> bridge" where
  "invoke_named name args b =
     (case getattr_inst (inst b) name of
        Callable h m \<Rightarrow> invoke name h m args b
      | Value v \<Rightarrow> (Inl (Exn TypeError ''object is not callable''), b)
      | Absent \<Rightarrow> (Inl (Exn TypeError ''object is not callable''), b))"

text \<open>The text an action puts before \<open>error:\<close> when its semantic method raises.\<close>

fun label_of :: "action \<Rightarrow> string" where
  "label_of Up = ''change_pointer(-1)''"
| "label_of Down = ''change_pointer(1)''"
| "label_of Left = ''change_value('' @ sq @ ''LEFT'' @ sq @ '')''"
| "label_of Right = ''change_value('' @ sq @ ''RIGHT'' @ sq @ '')''"
| "label_of Enter = ''enter_menu()''"
| "label_of Back = ''go_back()''"

subsection \<open>Concrete hosted instances and environments\<close>

text \<open>
  A repository in which every import succeeds, every file exists and the initializer
  hands out a given rendering instance; a bridge built on it by the constructor; and
  methods that return \<open>None\<close> or raise.
\<close>

definition blank_store :: store where
  "blank_store = (\<lambda>r. \<lparr>width = 128, height = 128, pixels = []\<rparr>)"

definition upstream_args :: args where
  "upstream_args = \<lparr>appmode = ''platform'', leddriver = ''rpi_ws281x'', webinterface = ''true'',
     display = ''1in44'', fontdir = ''/usr/share/fonts/truetype/freefont''\<rparr>"

definition fixed_initializer :: "hosted option \<Rightarrow> args \<Rightarrow> store \<Rightarrow> (exn + hosted option) \<times> store" where
  "fixed_initializer menu a hp = (Inr menu, hp)"

definition all_paths :: "string \<Rightarrow> bool" where "all_paths p = True"

definition no_paths :: "string \<Rightarrow> bool" where "no_paths p = False"

definition env_with :: "hosted option \<Rightarrow> env" where
  "env_with menu =
     \<lparr>dir_exists = all_paths, path_exists = all_paths,
      argument_parser = Inr (Some (Inr upstream_args)), platform_import = None,
      component_initializer = Inr (Some (fixed_initializer menu)), menulcd = Inr 1,
      fontdir_env = [], clock = 100\<rparr>"

definition bridge_on :: "hosted \<Rightarrow> bridge" where
  "bridge_on h = snd (bridge_init (env_with (Some h)) ''/repo'' None blank_store [] ''/home'')"

definition returns_none :: pymethod where
  "returns_none a s = (Inr PNone, s)"

definition raises_error :: pymethod where
  "raises_error a s = (Inl (Exn OtherError ''boom''), s)"

definition bare_host :: hosted where
  "bare_host = \<lparr>methods = Map.empty, lcd_methods = None, data = \<lparr>inst_vars = [], lcd_vars = []\<rparr>\<rparr>"

definition host_with :: "(string \<times> pymethod) list \<Rightarrow> hosted" where
  "host_with ms = \<lparr>methods = map_of ms, lcd_methods = None, data = \<lparr>inst_vars = [], lcd_vars = []\<rparr>\<rparr>"

definition host_on_up :: hosted where
  "host_on_up = host_with [(''on_up'', returns_none), (''up'', returns_none)]"

definition host_failing_primary :: hosted where
  "host_failing_primary = host_with [(''change_pointer'', raises_error), (''button_up'', returns_none)]"

text \<open>Instances for the encoder: one whose only method raises, one with the semantic pointer method.\<close>

definition host_failing_down :: hosted where
  "host_failing_down = host_with [(''button_down'', raises_error)]"

definition host_pointer :: hosted where
  "host_pointer = host_with [(''change_pointer'', returns_none)]"

text \<open>The candidates and the banner of \<open>action_encoder\<close>, as its definition spells them.\<close>

definition encoder_names :: "string list" where
  "encoder_names = [''encoder'', ''on_encoder'', ''rotate'', ''on_rotate'']"

definition encoder_banner :: "int \<Rightarrow> string" where
  "encoder_banner delta = ''[BRIDGE] action_encoder delta='' @ str_int delta"

text \<open>
  What a construction or a reload leaves alone: it never touches the retained frame, the
  repository path, the display profile or standard output, and it only extends the error
  list, the logger and the record of calls.
\<close>

definition reworks :: "bridge \<Rightarrow> bridge \<Rightarrow> bool" where
  "reworks b b' =
     (last_frame b' = last_frame b \<and> repo_path b' = repo_path b \<and>
      display_profile b' = display_profile b \<and> stdout b' = stdout b \<and>
      prefix (errors b) (errors b') \<and> prefix (logger b) (logger b') \<and>
      prefix (calls b) (calls b'))"

text \<open>Environments in which reconstruction fails: the initializer raises, or \<open>lib/menulcd.py\<close> is missing.\<close>

definition failing_initializer :: "args \<Rightarrow> store \<Rightarrow> (exn + hosted option) \<times> store" where
  "failing_initializer a hp = (Inl (Exn OtherError ''boom''), hp)"

definition env_missing_file :: env where
  "env_missing_file = (env_with None)\<lparr>path_exists := no_paths\<rparr>"

definition env_failing_init :: env where
  "env_failing_init = (env_with None)\<lparr>component_initializer := Inr (Some failing_initializer)\<rparr>"

text \<open>
  A hosted instance whose \<open>get_frame()\<close> gives its image a limited number of times and
  raises afterwards.
\<close>

definition flaky_get_frame :: pymethod where
  "flaky_get_frame a s =
     (case map_of (inst_vars (fst s)) ''credit'' of
        Some (PInt n) \<Rightarrow>
          if n > 0 then (Inr (PImage 0), (fst s)\<lparr>inst_vars := [(''credit'', PInt (n - 1))]\<rparr>, snd s)
          else (Inl (Exn OtherError ''no frame''), s)
      | _ \<Rightarrow> (Inl (Exn OtherError ''no frame''), s))"

definition host_flaky :: "int \<Rightarrow> hosted" where
  "host_flaky n = \<lparr>methods = [''get_frame'' \<mapsto> flaky_get_frame], lcd_methods = None,
     data = \<lparr>inst_vars = [(''credit'', PInt n)], lcd_vars = []\<rparr>\<rparr>"

text \<open>
  A hosted instance that keeps its framebuffer in the attribute \<open>image\<close> and draws into
  it in place on every \<open>render()\<close>.
\<close>

definition draws :: pymethod where
  "draws a s = (Inr PNone, fst s, (snd s)(0 := (snd s 0)\<lparr>pixels := 1 # pixels (snd s 0)\<rparr>))"

definition host_drawing :: hosted where
  "host_drawing = \<lparr>methods = [''render'' \<mapsto> draws], lcd_methods = None,
     data = \<lparr>inst_vars = [(''image'', PImage 0)], lcd_vars = []\<rparr>\<rparr>"

section \<open>Properties of the emulator, the watcher and the bridge\<close>

subsection \<open>Pin levels\<close>

lemma gpio_output_reads_level:
  "gpio_input (gpio_output c v g) c = (if v \<noteq> 0 then HIGH else LOW)"
  by (simp add: gpio_input_def gpio_output_def)

lemma gpio_input_unwritten: "gpio_input gpio_initial c = LOW"
  by (simp add: gpio_input_def gpio_initial_def)

text \<open>
  C10. The claim is that \<open>input(channel)\<close> returns \<open>HIGH\<close> or \<open>LOW\<close> after any sequence
  of setup, write and cleanup calls. \<open>output\<close> stores a level, and an unwritten channel
  reads \<open>LOW\<close>, but \<open>setup\<close> stores its \<open>initial\<close> argument as it is: after
  \<open>setup(7, OUT, initial=5)\<close> on the freshly loaded module, \<open>input(7)\<close> returns 5, which
  is neither level.
\<close>

theorem setup_initial_read_not_level:
  "gpio_input (gpio_setup 7 OUT None (Some 5) (gpio_initial :: unit gpio)) 7 = 5 \<and>
   (5::int) \<noteq> HIGH \<and> (5::int) \<noteq> LOW"
  by (simp add: gpio_input_def gpio_setup_def gpio_initial_def HIGH_def LOW_def)

subsection \<open>Simulated edges\<close>



subsection \<open>Debounced delivery\<close>

lemma watcher_run_append:
  "watcher_run cb (xs @ ys) w = watcher_run cb ys (watcher_run cb xs w)"
  by (induction xs arbitrary: w) simp_all

lemma run_events:
  "watcher_run cb (map (\<lambda>tp. FsEvent (fst tp) (snd tp)) evs) w = w\<lparr>changed := changed w @ map snd evs\<rparr>"
  by (induction evs arbitrary: w) (simp_all add: on_event_def)

lemma debounce_iteration_flush:
  "changed w \<noteq> [] \<Longrightarrow> debounce w \<le> now - last_flush w \<Longrightarrow>
   delivered (debounce_iteration cb now w) = delivered w @ [set (changed w)] \<and>
   changed (debounce_iteration cb now w) = [] \<and>
   last_flush (debounce_iteration cb now w) = now \<and>
   debounce (debounce_iteration cb now w) = debounce w"
  by (simp add: debounce_iteration_def Let_def split: option.splits)

lemma run_burst:
  assumes "evs \<noteq> []" "changed w = []" "debounce w \<le> now - last_flush w"
  shows "delivered (watcher_run cb (burst evs now) w) = delivered w @ [set (map snd evs)] \<and>
   changed (watcher_run cb (burst evs now) w) = [] \<and>
   last_flush (watcher_run cb (burst evs now) w) = now \<and>
   debounce (watcher_run cb (burst evs now) w) = debounce w"
  using assms debounce_iteration_flush [of "w\<lparr>changed := changed w @ map snd evs\<rparr>" now cb]
  by (simp add: burst_def watcher_run_append run_events)




subsection \<open>What dispatch, stepping and frame extraction leave unchanged\<close>

lemma keeps_refl [simp]: "keeps b b"
  by (simp add: keeps_def)

lemma keeps_trans:
  assumes "keeps a b" and "keeps b c"
  shows "keeps a c"
proof -
  have "length (calls a) \<le> length (calls b)" and "length (calls b) \<le> length (calls c)"
    using assms by (simp_all add: keeps_def prefix_length_le)
  with assms show ?thesis
    unfolding keeps_def by (elim conjE disjE) auto
qed

lemma push_error_keeps [simp]: "keeps b (push_error msg b)"
  by (simp add: keeps_def push_error_def)

lemma keeps_push: "keeps b x \<Longrightarrow> keeps b (push_error msg x)"
  by (rule keeps_trans [OF _ push_error_keeps])

lemma invoke_keeps: "invoke name h m args b = (r, b') \<Longrightarrow> keeps b b'"
  by (auto simp: invoke_def keeps_def split: prod.splits)

lemma extract_named_keeps: "keeps b (snd (extract_named names b))"
proof (induction names arbitrary: b)
  case Nil
  then show ?case by simp
next
  case (Cons name rest)
  have IH: "\<And>x. keeps b x \<Longrightarrow> keeps b (snd (extract_named rest x))"
    using Cons.IH keeps_trans by blast
  show ?case
    by (auto split: attr.splits pyval.splits prod.splits sum.splits
        dest!: invoke_keeps intro: IH)
qed

lemma extract_frame_keeps: "keeps b (snd (extract_frame b))"
proof -
  let ?names = "[''get_frame'', ''get_framebuffer'', ''framebuffer'', ''image'', ''frame'']"
  obtain r1 b1 where en: "extract_named ?names b = (r1, b1)" by (cases "extract_named ?names b")
  have k1: "keeps b b1" using extract_named_keeps [of b ?names] en by simp
  show ?thesis
    unfolding extract_frame_def en using k1
    by (simp split: option.splits)
qed

lemma step_methods_keeps: "keeps b (snd (step_methods names b))"
proof (induction names arbitrary: b)
  case Nil
  then show ?case by simp
next
  case (Cons name rest)
  have IH: "\<And>x. keeps b x \<Longrightarrow> keeps b (snd (step_methods rest x))"
    using Cons.IH keeps_trans by blast
  show ?case
    by (auto split: attr.splits prod.splits sum.splits
        dest!: invoke_keeps intro: IH keeps_push)
qed

lemma step_lcd_keeps: "keeps b (snd (step_lcd lm names b))"
proof (induction names arbitrary: b)
  case Nil
  then show ?case by simp
next
  case (Cons name rest)
  have IH: "\<And>x. keeps b x \<Longrightarrow> keeps b (snd (step_lcd lm rest x))"
    using Cons.IH keeps_trans by blast
  show ?case
    by (auto split: attr.splits prod.splits sum.splits option.splits
        dest!: invoke_keeps intro: IH keeps_push)
qed

lemma step_keeps: "keeps b (step b)"
proof -
  let ?names = "[''render'', ''draw'', ''update'', ''tick'', ''loop'', ''paint'',
                 ''display'', ''refresh'', ''render_menu'', ''renderMenu'']"
  obtain r1 b1 where sm: "step_methods ?names b = (r1, b1)" by (cases "step_methods ?names b")
  have k1: "keeps b b1" using step_methods_keeps [of b ?names] sm by simp
  have k2: "\<And>lm ns. keeps b (snd (step_lcd lm ns b1))"
    using k1 step_lcd_keeps keeps_trans by blast
  show ?thesis
    unfolding step_def sm using k1 k2
    by (auto simp del: step_methods.simps step_lcd.simps split: option.splits bool.splits)
qed

lemma call_candidates_keeps: "keeps b (snd (call_candidates names args sw b))"
proof (induction names arbitrary: b)
  case Nil
  then show ?case by simp
next
  case (Cons name rest)
  have IH: "\<And>x. keeps b x \<Longrightarrow> keeps b (snd (call_candidates rest args sw x))"
    using Cons.IH keeps_trans by blast
  show ?case
  proof (cases "getattr_inst (inst b) name")
    case (Callable h f)
    obtain r1 b1 where inv: "invoke name h f args b = (r1, b1)" by (cases "invoke name h f args b")
    have k1: "keeps b b1" using invoke_keeps [OF inv] .
    show ?thesis
      using Callable inv k1 IH [OF keeps_push [OF k1]]
      by (cases r1; cases sw) (simp_all add: Let_def keeps_push)
  qed (simp_all add: Cons.IH)
qed

lemma call_if_exists_keeps: "keeps b (snd (call_if_exists names args sw b))"
proof -
  obtain r1 b1 where cc: "call_candidates names args sw b = (r1, b1)"
    by (cases "call_candidates names args sw b")
  have k1: "keeps b b1" using call_candidates_keeps [of b names args sw] cc by simp
  show ?thesis
  proof (cases r1)
    case (Inl e)
    then show ?thesis unfolding call_if_exists_def cc using k1 by simp
  next
    case (Inr ok)
    show ?thesis
    proof (cases ok)
      case True
      then show ?thesis unfolding call_if_exists_def cc using k1 Inr by simp
    next
      case False
      show ?thesis
      proof (cases "getattr_inst (inst b1) ''handle_key''")
        case (Callable h m)
        show ?thesis
        proof (cases names)
          case Nil
          then show ?thesis unfolding call_if_exists_def cc using k1 Inr False Callable by simp
        next
          case (Cons c cs)
          obtain r2 b2 where inv: "invoke ''handle_key'' h m [PStr c] b1 = (r2, b2)"
            by (cases "invoke ''handle_key'' h m [PStr c] b1")
          have k2: "keeps b b2" using k1 invoke_keeps [OF inv] by (rule keeps_trans)
          show ?thesis
            unfolding call_if_exists_def cc using Inr False Callable Cons inv k2
            by (cases r2) (simp_all add: Let_def keeps_push)
        qed
      qed (use k1 Inr False in \<open>simp_all add: call_if_exists_def cc\<close>)
    qed
  qed
qed

subsection \<open>Actions and the candidates they call\<close>

lemma exposed_print_line [simp]: "exposed (print_line s b) name = exposed b name"
  by (simp add: exposed_def print_line_def)

lemma exposed_print_line_fun [simp]: "exposed (print_line s b) = exposed b"
  by (rule ext) simp

lemma not_exposed_cases:
  "\<not> exposed b name \<Longrightarrow> getattr_inst (inst b) name = Absent \<or> (\<exists>v. getattr_inst (inst b) name = Value v)"
  by (cases "getattr_inst (inst b) name") (simp_all add: exposed_def)

lemma call_candidates_unexposed:
  "list_all (\<lambda>n. \<not> exposed b n) names \<Longrightarrow> call_candidates names args sw b = (Inr False, b)"
proof (induction names)
  case Nil
  then show ?case by simp
next
  case (Cons name rest)
  then have "\<not> exposed b name" and rest: "call_candidates rest args sw b = (Inr False, b)"
    by simp_all
  from not_exposed_cases [OF this(1)] rest show ?case by auto
qed

lemma call_if_exists_unexposed:
  assumes "list_all (\<lambda>n. \<not> exposed b n) names" and "\<not> exposed b ''handle_key''"
  shows "call_if_exists names args sw b = (Inr False, b)"
  using not_exposed_cases [OF assms(2)] call_candidates_unexposed [OF assms(1), of args sw]
  by (auto simp: call_if_exists_def)

lemma semantic_action_unexposed:
  assumes "\<not> exposed b primary" and "list_all (\<lambda>n. \<not> exposed b n) fallbacks"
    and "\<not> exposed b ''handle_key''"
  shows "semantic_action banner primary args label fallbacks b = (Inr (), print_line banner b)"
proof -
  let ?b0 = "print_line banner b"
  have 1: "\<not> exposed ?b0 primary" "list_all (\<lambda>n. \<not> exposed ?b0 n) fallbacks"
    "\<not> exposed ?b0 ''handle_key''"
    using assms by simp_all
  show ?thesis
    using not_exposed_cases [OF 1(1)] call_if_exists_unexposed [OF 1(2) 1(3), of "[]" False]
    by (auto simp: semantic_action_def Let_def)
qed

lemma run_action_semantic:
  "run_action a = semantic_action (banner_of a) (primary_of a) (primary_args a) (label_of a) (fallbacks_of a)"
  by (cases a) (simp_all add: action_up_def action_down_def action_left_def action_right_def
      action_enter_def action_back_def)

text \<open>
  C6, as the code has it. When the instance exposes none of the names of an action's
  resolution list (semantic method, fallbacks, \<open>handle_key\<close>), the action returns
  without raising and changes nothing but standard output, where it prints its banner:
  the error log is as it was, so nothing records the dropped action.
\<close>

theorem unexposed_action_not_recorded:
  assumes "find (exposed b) (resolution_list a) = None"
  shows "run_action a b = (Inr (), print_line (banner_of a) b) \<and>
         errors (snd (run_action a b)) = errors b"
proof -
  from assms have all: "\<forall>n \<in> set (resolution_list a). \<not> exposed b n"
    by (simp add: find_None_iff)
  then have "\<not> exposed b (primary_of a)" "list_all (\<lambda>n. \<not> exposed b n) (fallbacks_of a)"
    "\<not> exposed b ''handle_key''"
    by (simp_all add: resolution_list_def list_all_iff)
  from semantic_action_unexposed [OF this]
  show ?thesis by (simp add: run_action_semantic print_line_def)
qed

lemma invoke_named_exposed:
  assumes "exposed b name"
  shows "\<exists>h m. getattr_inst (inst b) name = Callable h m \<and> invoke_named name args b = invoke name h m args b"
  using assms by (cases "getattr_inst (inst b) name") (simp_all add: exposed_def invoke_named_def)

lemma invoke_calls: "calls (snd (invoke name h m args b)) = calls b @ [(name, args)]"
  by (simp add: invoke_def split: prod.splits)

lemma invoke_named_calls:
  "exposed b name \<Longrightarrow> calls (snd (invoke_named name args b)) = calls b @ [(name, args)]"
  using invoke_named_exposed [of b name args] by (auto simp: invoke_calls)

lemma call_candidates_first:
  "find (exposed b) names = Some c \<Longrightarrow>
   call_candidates names args False b =
     (case invoke_named c args b of
        (Inr v, b1) \<Rightarrow> (Inr True, b1)
      | (Inl e, b1) \<Rightarrow> (Inl e, push_error (c @ '' error: '' @ str_exn e) b1))"
proof (induction names)
  case Nil
  then show ?case by simp
next
  case (Cons name rest)
  show ?case
  proof (cases "exposed b name")
    case True
    with Cons.prems have "c = name" by simp
    with True invoke_named_exposed [of b name args] show ?thesis
      by (auto simp: Let_def split: prod.splits sum.splits)
  next
    case False
    with Cons have "call_candidates rest args False b =
     (case invoke_named c args b of
        (Inr v, b1) \<Rightarrow> (Inr True, b1)
      | (Inl e, b1) \<Rightarrow> (Inl e, push_error (c @ '' error: '' @ str_exn e) b1))"
      by simp
    with not_exposed_cases [OF False] show ?thesis by auto
  qed
qed

lemma find_exposed_append:
  "find P (xs @ ys) = (case find P xs of None \<Rightarrow> find P ys | Some x \<Rightarrow> Some x)"
  by (induction xs) simp_all

lemma semantic_action_first:
  assumes f: "find (exposed b) (primary # fallbacks @ [''handle_key'']) = Some c"
    and hk: "''handle_key'' \<notin> set fallbacks" and ne: "fallbacks \<noteq> []"
    and cargs: "cargs = (if c = primary then args else if c = ''handle_key'' then [PStr (hd fallbacks)] else [])"
  shows "prefix (calls b @ [(c, cargs)]) (calls (snd (semantic_action banner primary args label fallbacks b))) \<and>
    (isl (fst (invoke_named c cargs (print_line banner b))) \<or>
       semantic_action banner primary args label fallbacks b =
         (Inr (), snd (invoke_named c cargs (print_line banner b))))"
proof -
  let ?b0 = "print_line banner b"
  have ex0: "\<And>n. exposed ?b0 n = exposed b n" by simp
  have calls0: "calls ?b0 = calls b" by (simp add: print_line_def)
  show ?thesis
  proof (cases "exposed b primary")
    case True
    then have c: "c = primary" "cargs = args" using f cargs by simp_all
    from True obtain h m where g: "getattr_inst (inst ?b0) primary = Callable h m"
      and inv: "invoke_named primary args ?b0 = invoke primary h m args ?b0"
      using invoke_named_exposed [of ?b0 primary args] by auto
    obtain r b1 where r: "invoke primary h m args ?b0 = (r, b1)" by (cases "invoke primary h m args ?b0")
    have cb1: "calls b1 = calls b @ [(primary, args)]"
      using invoke_calls [of primary h m args ?b0] r calls0 by simp
    show ?thesis
    proof (cases r)
      case (Inr v)
      with g inv r c cb1 show ?thesis by (simp add: semantic_action_def Let_def)
    next
      case (Inl e)
      let ?b2 = "push_error (label @ '' error: '' @ str_exn e) b1"
      have "keeps ?b2 (snd (call_if_exists fallbacks [] False ?b2))"
        by (rule call_if_exists_keeps)
      then have "keeps b1 (snd (call_if_exists fallbacks [] False ?b2))"
        using push_error_keeps keeps_trans by blast
      then have "prefix (calls b1) (calls (snd (call_if_exists fallbacks [] False ?b2)))"
        by (simp add: keeps_def)
      moreover have "snd (semantic_action banner primary args label fallbacks b) =
          snd (call_if_exists fallbacks [] False ?b2)"
        using g r Inl by (simp add: semantic_action_def Let_def split: prod.splits sum.splits)
      ultimately show ?thesis using c cb1 inv r Inl by simp
    qed
  next
    case False
    then have np: "\<not> exposed ?b0 primary" by simp
    have sa: "semantic_action banner primary args label fallbacks b =
        (case call_if_exists fallbacks [] False ?b0 of
           (Inl e, b2) \<Rightarrow> (Inl e, b2) | (Inr r, b2) \<Rightarrow> (Inr (), b2))"
      using not_exposed_cases [OF np] by (auto simp: semantic_action_def Let_def)
    show ?thesis
    proof (cases "find (exposed b) fallbacks")
      case (Some c')
      with f False have cc: "c' = c" by (simp add: find_exposed_append)
      from Some cc have "c \<in> set fallbacks" "exposed b c"
        by (auto simp: find_Some_iff)
      with hk False cargs have ca: "cargs = []" by auto
      have ff: "find (exposed ?b0) fallbacks = Some c" using Some cc by simp
      have exc: "exposed ?b0 c" using \<open>exposed b c\<close> by simp
      obtain r b1 where r: "invoke_named c [] ?b0 = (r, b1)" by (cases "invoke_named c [] ?b0")
      have cb1: "calls b1 = calls b @ [(c, [])]"
        using invoke_named_calls [OF exc, of "[]"] r calls0 by simp
      have cif: "call_if_exists fallbacks [] False ?b0 =
          (case r of Inr v \<Rightarrow> (Inr True, b1)
           | Inl e \<Rightarrow> (Inl e, push_error (c @ '' error: '' @ str_exn e) b1))"
        using call_candidates_first [OF ff, of "[]"] r
        by (cases r) (simp_all add: call_if_exists_def)
      show ?thesis using sa cif r ca cb1 by (cases r) (simp_all add: push_error_def)
    next
      case None
      with f False have c: "c = ''handle_key''" and ehk: "exposed b ''handle_key''"
        by (auto simp: find_exposed_append split: if_splits)
      from c False ehk cargs have ca: "cargs = [PStr (hd fallbacks)]" by auto
      have un: "list_all (\<lambda>n. \<not> exposed ?b0 n) fallbacks"
        using None by (simp add: find_None_iff list_all_iff)
      have cc: "call_candidates fallbacks [] False ?b0 = (Inr False, ?b0)"
        by (rule call_candidates_unexposed [OF un])
      from ehk obtain h m where g: "getattr_inst (inst ?b0) ''handle_key'' = Callable h m"
        and inv: "invoke_named ''handle_key'' cargs ?b0 = invoke ''handle_key'' h m cargs ?b0"
        using invoke_named_exposed [of ?b0 "''handle_key''" cargs] by auto
      obtain r b1 where r: "invoke ''handle_key'' h m cargs ?b0 = (r, b1)"
        by (cases "invoke ''handle_key'' h m cargs ?b0")
      have cb1: "calls b1 = calls b @ [(''handle_key'', cargs)]"
        using invoke_calls [of "''handle_key''" h m cargs ?b0] r calls0 by simp
      obtain f1 frest where fl: "fallbacks = f1 # frest" using ne by (cases fallbacks) auto
      show ?thesis
        using sa cc g inv r ca cb1 c fl
        by (cases r) (simp_all add: call_if_exists_def push_error_def Let_def)
    qed
  qed
qed

lemma resolution_list_shape:
  "resolution_list a = primary_of a # fallbacks_of a @ [''handle_key''] \<and>
   ''handle_key'' \<notin> set (fallbacks_of a) \<and> fallbacks_of a \<noteq> []"
  by (cases a) (simp_all add: resolution_list_def)

text \<open>
  C2, as the code has it. When the instance exposes (as a callable) at least one name of
  an action's resolution list, the first call the action makes on the instance is the
  first exposed name in priority order, with the semantic argument for the semantic
  method, no argument for a fallback and the first fallback name for \<open>handle_key\<close>;
  and when that call returns normally it is the only call made, and the action returns
  normally in the state that call left.
\<close>

theorem first_exposed_candidate_invoked:
  assumes "find (exposed b) (resolution_list a) = Some c"
  shows "prefix (calls b @ [(c, candidate_args a c)]) (calls (snd (run_action a b))) \<and>
     (\<not> isl (fst (invoke_named c (candidate_args a c) (print_line (banner_of a) b))) \<longrightarrow>
        run_action a b =
          (Inr (), snd (invoke_named c (candidate_args a c) (print_line (banner_of a) b))) \<and>
        calls (snd (run_action a b)) = calls b @ [(c, candidate_args a c)])"
proof -
  have ex: "exposed (print_line (banner_of a) b) c"
    using assms by (auto simp: find_Some_iff)
  have cl: "calls (snd (invoke_named c (candidate_args a c) (print_line (banner_of a) b))) =
      calls b @ [(c, candidate_args a c)]"
    using invoke_named_calls [OF ex] by (simp add: print_line_def)
  from semantic_action_first [of b "primary_of a" "fallbacks_of a" c "candidate_args a c"
      "primary_args a" "banner_of a" "label_of a"] assms resolution_list_shape [of a]
  show ?thesis
    using cl by (auto simp: run_action_semantic candidate_args_def)
qed

lemma bridge_on_host_with:
  assumes "list_all (\<lambda>n. map_of ms n = None)
     [''render'', ''draw'', ''update'', ''tick'', ''loop'', ''paint'', ''display'', ''refresh'',
      ''render_menu'', ''renderMenu'', ''get_frame'', ''get_framebuffer'', ''framebuffer'',
      ''image'', ''frame'']"
  shows "bridge_on (host_with ms) =
    (fresh_bridge ''/repo'' None blank_store [''/repo''] ''/home'')
      \<lparr>menulcd_module := Some 1, inst := Some (host_with ms), created_ts := 100\<rparr>"
  using assms
  by (simp add: bridge_on_def bridge_init_def import_and_create_def import_and_create_try_def
      build_instance_def install_and_probe_def env_with_def all_paths_def fixed_initializer_def
      fresh_bridge_def step_def extract_frame_def getattr_inst_def host_with_def Let_def)

lemma bridge_on_up:
  "bridge_on host_on_up =
    (fresh_bridge ''/repo'' None blank_store [''/repo''] ''/home'')
      \<lparr>menulcd_module := Some 1, inst := Some host_on_up, created_ts := 100\<rparr>"
  unfolding host_on_up_def by (rule bridge_on_host_with) simp

lemma bridge_on_failing_primary:
  "bridge_on host_failing_primary =
    (fresh_bridge ''/repo'' None blank_store [''/repo''] ''/home'')
      \<lparr>menulcd_module := Some 1, inst := Some host_failing_primary, created_ts := 100\<rparr>"
  unfolding host_failing_primary_def by (rule bridge_on_host_with) simp

theorem first_exposed_candidate_invoked_witness:
  "find (exposed (bridge_on host_on_up)) (resolution_list Up) = Some ''on_up'' \<and>
   fst (run_action Up (bridge_on host_on_up)) = Inr () \<and>
   calls (snd (run_action Up (bridge_on host_on_up))) = [(''on_up'', [])]"
  using first_exposed_candidate_invoked [of "bridge_on host_on_up" Up "''on_up''"]
  unfolding bridge_on_up
  by (simp add: exposed_def getattr_inst_def host_on_up_def host_with_def
      resolution_list_def candidate_args_def invoke_named_def invoke_def returns_none_def
      print_line_def fresh_bridge_def)

text \<open>
  C2, as the claim states it, fails: when the semantic method raises, the action logs the
  error and goes on to the fallbacks. Over an instance whose \<open>change_pointer\<close> raises
  and whose \<open>button_up\<close> returns, one \<open>action_up()\<close> calls both.
\<close>

theorem failing_primary_two_candidates:
  "find (exposed (bridge_on host_failing_primary)) (resolution_list Up) = Some ''change_pointer'' \<and>
   fst (run_action Up (bridge_on host_failing_primary)) = Inr () \<and>
   calls (snd (run_action Up (bridge_on host_failing_primary))) =
     [(''change_pointer'', [PInt (- 1)]), (''button_up'', [])]"
  unfolding bridge_on_failing_primary
  by (simp add: exposed_def getattr_inst_def host_failing_primary_def
      host_with_def resolution_list_def action_up_def semantic_action_def call_if_exists_def
      invoke_def returns_none_def raises_error_def print_line_def push_error_def fresh_bridge_def
      Let_def)

lemma bridge_on_bare:
  "bridge_init (env_with (Some bare_host)) ''/repo'' None blank_store [] ''/home'' =
    (Inr (), (fresh_bridge ''/repo'' None blank_store [''/repo''] ''/home'')\<lparr>menulcd_module := Some 1, inst := Some bare_host, created_ts := 100\<rparr>)"
  by (simp add: bridge_init_def import_and_create_def import_and_create_try_def build_instance_def
      install_and_probe_def env_with_def all_paths_def fixed_initializer_def fresh_bridge_def
      step_def extract_frame_def getattr_inst_def bare_host_def Let_def)

lemma bridge_on_bare_host:
  "bridge_on bare_host =
    (fresh_bridge ''/repo'' None blank_store [''/repo''] ''/home'')
      \<lparr>menulcd_module := Some 1, inst := Some bare_host, created_ts := 100\<rparr>"
  by (simp add: bridge_on_def bridge_on_bare)

theorem unexposed_action_not_recorded_witness:
  "find (exposed (bridge_on bare_host)) (resolution_list Back) = None \<and>
   run_action Back (bridge_on bare_host) = (Inr (), print_line back_banner (bridge_on bare_host)) \<and>
   errors (snd (run_action Back (bridge_on bare_host))) = []"
  using unexposed_action_not_recorded [of "bridge_on bare_host" Back]
  unfolding bridge_on_bare_host
  by (simp add: exposed_def getattr_inst_def bare_host_def resolution_list_def fresh_bridge_def
      print_line_def)

text \<open>
  C6, as the claim states it, fails: on a bridge built over an instance with no methods,
  \<open>action_up()\<close> returns normally and \<open>pop_errors()\<close> then gives the empty list.
\<close>

theorem dropped_action_leaves_log_empty:
  "find (exposed (bridge_on bare_host)) (resolution_list Up) = None \<and>
   fst (run_action Up (bridge_on bare_host)) = Inr () \<and>
   errors (bridge_on bare_host) = [] \<and>
   fst (pop_errors (snd (run_action Up (bridge_on bare_host)))) = []"
  unfolding bridge_on_bare_host
  by (simp add: exposed_def getattr_inst_def bare_host_def resolution_list_def fresh_bridge_def
      action_up_def semantic_action_def call_if_exists_def print_line_def pop_errors_def Let_def)

subsection \<open>The encoder\<close>

lemma snd_unit_result:
  "snd (case x of (Inl e, b2) \<Rightarrow> (Inl e, b2) | (Inr r, b2) \<Rightarrow> (Inr u, b2)) = snd x"
  by (cases x; cases "fst x") auto

lemma semantic_action_keeps:
  "keeps (print_line banner b) (snd (semantic_action banner primary args label fallbacks b))"
proof -
  let ?b0 = "print_line banner b"
  have tail: "\<And>x. keeps ?b0 x \<Longrightarrow> keeps ?b0 (snd (call_if_exists fallbacks [] False x))"
    using call_if_exists_keeps keeps_trans by blast
  show ?thesis
  proof (cases "getattr_inst (inst ?b0) primary")
    case (Callable h f)
    obtain r b1 where inv: "invoke primary h f args ?b0 = (r, b1)"
      by (cases "invoke primary h f args ?b0")
    have k1: "keeps ?b0 b1" using invoke_keeps [OF inv] .
    show ?thesis
      using Callable inv k1 tail [OF keeps_push [OF k1]]
      by (cases r) (simp_all add: semantic_action_def Let_def snd_unit_result)
  qed (use tail [OF keeps_refl] in \<open>simp_all add: semantic_action_def Let_def snd_unit_result\<close>)
qed

lemma run_action_stdout: "stdout (snd (run_action a b)) = stdout b @ [banner_of a]"
  using semantic_action_keeps [of "banner_of a" b "primary_of a" "primary_args a" "label_of a" "fallbacks_of a"]
  by (simp add: run_action_semantic keeps_def print_line_def)

lemma repeat_action_stdout:
  assumes act: "\<And>x. stdout (snd (act x)) = stdout x @ [banner]"
  shows "\<exists>k\<le>n. stdout (snd (repeat_action n act b)) = stdout b @ replicate k banner \<and>
     (fst (repeat_action n act b) = Inr () \<longrightarrow> k = n) \<and>
     (isl (fst (repeat_action n act b)) \<longrightarrow> 0 < k)"
proof (induction n arbitrary: b)
  case 0
  then show ?case by simp
next
  case (Suc n)
  obtain r b1 where ab: "act b = (r, b1)" by (cases "act b")
  have s1: "stdout b1 = stdout b @ [banner]" using act [of b] ab by simp
  show ?case
  proof (cases r)
    case (Inl e)
    have "stdout (snd (repeat_action (Suc n) act b)) = stdout b @ replicate 1 banner"
      using ab Inl s1 by simp
    moreover have "fst (repeat_action (Suc n) act b) \<noteq> Inr ()" using ab Inl by simp
    ultimately show ?thesis by (intro exI [of _ 1]) simp
  next
    case (Inr u)
    from Suc.IH [of b1] obtain k where k: "k \<le> n"
      "stdout (snd (repeat_action n act b1)) = stdout b1 @ replicate k banner"
      "fst (repeat_action n act b1) = Inr () \<longrightarrow> k = n" by blast
    have "stdout (snd (repeat_action (Suc n) act b)) = stdout b @ replicate (Suc k) banner"
      using ab Inr s1 k(2) by (simp add: replicate_append_same)
    with k ab Inr show ?thesis by (intro exI [of _ "Suc k"]) simp
  qed
qed

lemma action_down_stdout: "stdout (snd (action_down x)) = stdout x @ [down_banner]"
  using run_action_stdout [of Down x] by simp

lemma action_up_stdout: "stdout (snd (action_up x)) = stdout x @ [up_banner]"
  using run_action_stdout [of Up x] by simp


lemma bridge_on_pointer:
  "bridge_on host_pointer =
    (fresh_bridge ''/repo'' None blank_store [''/repo''] ''/home'')
      \<lparr>menulcd_module := Some 1, inst := Some host_pointer, created_ts := 100\<rparr>"
  unfolding host_pointer_def by (rule bridge_on_host_with) simp

lemma bridge_on_failing_down:
  "bridge_on host_failing_down =
    (fresh_bridge ''/repo'' None blank_store [''/repo''] ''/home'')
      \<lparr>menulcd_module := Some 1, inst := Some host_failing_down, created_ts := 100\<rparr>"
  unfolding host_failing_down_def by (rule bridge_on_host_with) simp



subsection \<open>Construction, reload and the display profile\<close>

lemma reworks_refl [simp]: "reworks b b"
  by (simp add: reworks_def)

lemma reworks_trans: "reworks a b \<Longrightarrow> reworks b c \<Longrightarrow> reworks a c"
  by (auto simp: reworks_def)

lemma keeps_reworks: "keeps b b' \<Longrightarrow> reworks b b'"
  by (simp add: keeps_def reworks_def)

lemma build_instance_inst: "inst (snd (build_instance ev b)) = inst b"
  by (simp add: build_instance_def push_error_def Let_def
      split: sum.splits option.splits prod.splits)

lemma build_instance_reworks: "reworks b (snd (build_instance ev b))"
  by (simp add: build_instance_def push_error_def reworks_def Let_def
      split: sum.splits option.splits prod.splits)

lemma build_args_cong:
  "repo_path b' = repo_path b \<Longrightarrow> display_profile b' = display_profile b \<Longrightarrow>
   build_args ev b' a = build_args ev b a"
  by (simp add: build_args_def)

lemma build_instance_cong:
  assumes "repo_path b' = repo_path b" "display_profile b' = display_profile b" "heap b' = heap b"
  shows "fst (build_instance ev b') = fst (build_instance ev b)"
proof -
  have ba: "\<And>m a. build_args ev (b'\<lparr>menulcd_module := m\<rparr>) a = build_args ev (b\<lparr>menulcd_module := m\<rparr>) a"
    using assms by (simp add: build_args_def)
  show ?thesis
    using assms ba
    by (simp add: build_instance_def Let_def split: sum.splits option.splits prod.splits)
qed

lemma install_and_probe_reworks: "reworks b (snd (install_and_probe ev menu b))"
proof -
  let ?b1 = "b\<lparr>inst := menu\<rparr>"
  have "keeps ?b1 (step ?b1)" by (rule step_keeps)
  moreover have "keeps (step ?b1) (snd (extract_frame (step ?b1)))" by (rule extract_frame_keeps)
  ultimately have "keeps ?b1 (snd (extract_frame (step ?b1)))" by (rule keeps_trans)
  then have r: "reworks b (snd (extract_frame (step ?b1)))"
    by (simp add: keeps_def reworks_def)
  obtain res b3 where ef: "extract_frame (step ?b1) = (res, b3)" by (cases "extract_frame (step ?b1)")
  show ?thesis
    using r unfolding install_and_probe_def ef
    by (simp add: reworks_def split: sum.splits option.splits)
qed

lemma import_and_create_try_reworks: "reworks b (snd (import_and_create_try ev b))"
proof -
  obtain res b1 where bi: "build_instance ev b = (res, b1)" by (cases "build_instance ev b")
  have r1: "reworks b b1" using build_instance_reworks [of b ev] bi by simp
  show ?thesis
    unfolding import_and_create_try_def bi using r1 install_and_probe_reworks reworks_trans
    by (cases res) auto
qed

lemma import_and_create_reworks: "reworks b (snd (import_and_create ev b))"
proof -
  define b0 where "b0 = (if repo_path b \<in> set (sys_path b) then b else b\<lparr>sys_path := repo_path b # sys_path b\<rparr>)"
  have r0: "reworks b (b0\<lparr>cwd := repo_path b\<rparr>)" and rb: "reworks b b0"
    by (simp_all add: b0_def reworks_def)
  obtain res b1 where t: "import_and_create_try ev (b0\<lparr>cwd := repo_path b\<rparr>) = (res, b1)"
    by (cases "import_and_create_try ev (b0\<lparr>cwd := repo_path b\<rparr>)")
  have "reworks (b0\<lparr>cwd := repo_path b\<rparr>) b1"
    using import_and_create_try_reworks [of "b0\<lparr>cwd := repo_path b\<rparr>" ev] t by simp
  with r0 have r1: "reworks b b1" by (rule reworks_trans)
  have "import_and_create ev b =
      (if \<not> dir_exists ev (repo_path b)
       then (Inl (Exn OSError (''No such file or directory: '' @ repo_path b)), b0)
       else (res, b1\<lparr>cwd := cwd b0\<rparr>))"
    using t by (simp add: import_and_create_def Let_def b0_def)
  then show ?thesis using r1 rb by (simp add: reworks_def)
qed

lemma reload_logger:
  "prefix (logger b @ [(''info'', ''Reloading MenuLCD...'')]) (logger (snd (reload ev b)))"
proof -
  let ?b0 = "b\<lparr>logger := logger b @ [(''info'', ''Reloading MenuLCD...'')]\<rparr>"
  have r: "reworks ?b0 (snd (import_and_create ev ?b0))" by (rule import_and_create_reworks)
  obtain res b1 where ic: "import_and_create ev ?b0 = (res, b1)" by (cases "import_and_create ev ?b0")
  from r ic have "prefix (logger ?b0) (logger b1)" by (simp add: reworks_def)
  then show ?thesis
    unfolding reload_def ic
    by (cases res) (auto simp: push_error_def prefix_def)
qed

lemma reload_reworks: "reworks b (snd (reload ev b))"
proof -
  let ?b0 = "b\<lparr>logger := logger b @ [(''info'', ''Reloading MenuLCD...'')]\<rparr>"
  have r0: "reworks b ?b0" by (simp add: reworks_def)
  have r: "reworks ?b0 (snd (import_and_create ev ?b0))" by (rule import_and_create_reworks)
  obtain res b1 where ic: "import_and_create ev ?b0 = (res, b1)" by (cases "import_and_create ev ?b0")
  have "reworks b b1" using reworks_trans [OF r0 r] ic by simp
  moreover have "\<And>m. reworks b1 (push_error m b1)" by (simp add: reworks_def push_error_def)
  ultimately show ?thesis
    unfolding reload_def ic using reworks_trans by (cases res) auto
qed

lemma reload_changes_state: "snd (reload ev b) \<noteq> b"
proof
  assume "snd (reload ev b) = b"
  then have "prefix (logger b @ [(''info'', ''Reloading MenuLCD...'')]) (logger b)"
    using reload_logger [of b ev] by simp
  then show False by (auto dest: prefix_length_le)
qed

text \<open>
  C7. For a profile other than \<open>None\<close>, \<open>'1in44'\<close> and \<open>'1in3'\<close>,
  \<open>set_display_profile\<close> raises \<open>BridgeError\<close> and the bridge, with the process state its
  methods act on, is exactly as before the call: the stored profile, the repository path
  and everything else. No reload took place, since a reload always leaves a state
  different from the one it started in (it logs that it is reloading).
\<close>

theorem invalid_profile_rejected:
  assumes "profile \<noteq> None" and "profile \<noteq> Some ''1in44''" and "profile \<noteq> Some ''1in3''"
  shows "set_display_profile profile do_reload ev b = (Inl (Exn BridgeError invalid_profile_msg), b) \<and>
    snd (reload ev b) \<noteq> snd (set_display_profile profile do_reload ev b)"
  using assms reload_changes_state [of ev b] by (simp add: set_display_profile_def)

theorem invalid_profile_rejected_witness:
  "set_display_profile (Some ''invalid'') True (env_with (Some host_on_up)) (bridge_on bare_host) =
     (Inl (Exn BridgeError invalid_profile_msg), bridge_on bare_host) \<and>
   display_profile (bridge_on bare_host) = None \<and> repo_path (bridge_on bare_host) = ''/repo''"
  using invalid_profile_rejected [of "Some ''invalid''" True "env_with (Some host_on_up)" "bridge_on bare_host"]
  by (simp add: bridge_on_bare_host fresh_bridge_def)

lemma import_and_create_failure:
  assumes "\<not> dir_exists ev (repo_path b) \<or> isl (fst (build_instance ev b))"
  shows "isl (fst (import_and_create ev b)) \<and> inst (snd (import_and_create ev b)) = inst b"
proof -
  define b0 where "b0 = (if repo_path b \<in> set (sys_path b) then b else b\<lparr>sys_path := repo_path b # sys_path b\<rparr>)"
  let ?b1 = "b0\<lparr>cwd := repo_path b\<rparr>"
  have same: "repo_path ?b1 = repo_path b" "display_profile ?b1 = display_profile b"
    "heap ?b1 = heap b" "inst ?b1 = inst b" "inst b0 = inst b"
    by (simp_all add: b0_def)
  obtain res b2 where bi: "build_instance ev ?b1 = (res, b2)" by (cases "build_instance ev ?b1")
  have res: "res = fst (build_instance ev b)"
    using build_instance_cong [OF same(1,2,3), of ev] bi by simp
  have i2: "inst b2 = inst b" using build_instance_inst [of ev ?b1] bi same by simp
  have ic: "import_and_create ev b =
      (if \<not> dir_exists ev (repo_path b)
       then (Inl (Exn OSError (''No such file or directory: '' @ repo_path b)), b0)
       else (case import_and_create_try ev ?b1 of (r, b3) \<Rightarrow> (r, b3\<lparr>cwd := cwd b0\<rparr>)))"
    by (simp add: import_and_create_def Let_def b0_def)
  show ?thesis
  proof (cases "dir_exists ev (repo_path b)")
    case False
    with ic same show ?thesis by simp
  next
    case True
    with assms res have "isl res" by simp
    then obtain e where "res = Inl e" by (cases res) auto
    with ic True bi i2 show ?thesis by (simp add: import_and_create_try_def)
  qed
qed


lemma build_instance_failing_init:
  "fst (build_instance env_failing_init (bridge_on host_on_up)) = Inl (Exn OtherError ''boom'')"
  by (simp add: build_instance_def env_failing_init_def env_with_def all_paths_def
      failing_initializer_def Let_def)



subsection \<open>Frames\<close>

lemma get_frame_cases:
  obtains (raised) e b1 where "extract_frame b = (Inl e, b1)" "last_frame b1 = last_frame b"
      "get_frame b = (Inr (last_frame b), push_error (''get_frame failed: '' @ str_exn e) b1)"
  | (nothing) b1 where "extract_frame b = (Inr None, b1)" "last_frame b1 = last_frame b"
      "get_frame b = (Inr (last_frame b), b1)"
  | (found) r b1 where "extract_frame b = (Inr (Some r), b1)"
      "get_frame b = (Inr (Some r), b1\<lparr>last_frame := Some r\<rparr>)"
proof -
  obtain res b1 where ef: "extract_frame b = (res, b1)" by (cases "extract_frame b")
  have lf: "last_frame b1 = last_frame b"
    using extract_frame_keeps [of b] ef by (simp add: keeps_def)
  show thesis
  proof (cases res)
    case (Inl e)
    have "extract_frame b = (Inl e, b1)" using ef Inl by simp
    moreover note lf
    moreover have "get_frame b = (Inr (last_frame b), push_error (''get_frame failed: '' @ str_exn e) b1)"
      using ef Inl lf by (simp add: get_frame_def get_frame_try_def push_error_def Let_def)
    ultimately show thesis by (rule raised)
  next
    case (Inr f)
    show thesis
    proof (cases f)
      case None
      have "extract_frame b = (Inr None, b1)" using ef Inr None by simp
      moreover note lf
      moreover have "get_frame b = (Inr (last_frame b), b1)"
        using ef Inr None lf by (simp add: get_frame_def get_frame_try_def)
      ultimately show thesis by (rule nothing)
    next
      case (Some r)
      have "extract_frame b = (Inr (Some r), b1)" using ef Inr Some by simp
      moreover have "get_frame b = (Inr (Some r), b1\<lparr>last_frame := Some r\<rparr>)"
        using ef Inr Some by (simp add: get_frame_def get_frame_try_def)
      ultimately show thesis by (rule found)
    qed
  qed
qed

lemma get_frame_returns_retained: "fst (get_frame b) = Inr (last_frame (snd (get_frame b)))"
  by (cases b rule: get_frame_cases) (simp_all add: push_error_def)

lemma get_frame_fallback:
  "\<forall>r. fst (extract_frame b) \<noteq> Inr (Some r) \<Longrightarrow> fst (get_frame b) = Inr (last_frame b)"
  by (cases b rule: get_frame_cases) simp_all

lemma get_frame_retains: "last_frame b \<noteq> None \<Longrightarrow> last_frame (snd (get_frame b)) \<noteq> None"
  by (cases b rule: get_frame_cases) (simp_all add: push_error_def)

lemma run_action_last_frame: "last_frame (snd (run_action a b)) = last_frame b"
  using semantic_action_keeps [of "banner_of a" b "primary_of a" "primary_args a" "label_of a" "fallbacks_of a"]
  by (simp add: run_action_semantic keeps_def print_line_def)

lemma repeat_action_last_frame:
  assumes "\<And>x. last_frame (snd (act x)) = last_frame x"
  shows "last_frame (snd (repeat_action n act b)) = last_frame b"
proof (induction n arbitrary: b)
  case 0
  then show ?case by simp
next
  case (Suc n)
  obtain r b1 where ab: "act b = (r, b1)" by (cases "act b")
  have "last_frame b1 = last_frame b" using assms [of b] ab by simp
  with Suc.IH [of b1] ab show ?case by (cases r) simp_all
qed

lemma action_home_last_frame: "last_frame (snd (action_home b)) = last_frame b"
proof -
  let ?names = "[''home'', ''go_home'', ''to_root'', ''menu_home'']"
  let ?b0 = "print_line ''[BRIDGE] action_home'' b"
  obtain r b1 where ci: "call_if_exists ?names [] True ?b0 = (r, b1)"
    by (cases "call_if_exists ?names [] True ?b0")
  have l1: "last_frame b1 = last_frame b"
    using call_if_exists_keeps [of ?b0 ?names "[]" True] ci by (simp add: keeps_def print_line_def)
  have rep: "last_frame (snd (repeat_action 5 action_back b1)) = last_frame b1"
    by (rule repeat_action_last_frame) (use run_action_last_frame [of Back] in simp)
  show ?thesis
    unfolding action_home_def ci using l1 rep
    by (simp del: repeat_action.simps split: sum.splits bool.splits)
qed

lemma action_encoder_last_frame: "last_frame (snd (action_encoder d b)) = last_frame b"
proof -
  let ?names = "[''encoder'', ''on_encoder'', ''rotate'', ''on_rotate'']"
  let ?b0 = "print_line (''[BRIDGE] action_encoder delta='' @ str_int d) b"
  obtain r b1 where ci: "call_if_exists ?names [PInt d] True ?b0 = (r, b1)"
    by (cases "call_if_exists ?names [PInt d] True ?b0")
  have l1: "last_frame b1 = last_frame b"
    using call_if_exists_keeps [of ?b0 ?names "[PInt d]" True] ci by (simp add: keeps_def print_line_def)
  have rep: "\<And>n. last_frame (snd (repeat_action n action_down b1)) = last_frame b1"
    "\<And>n. last_frame (snd (repeat_action n action_up b1)) = last_frame b1"
    using repeat_action_last_frame [of action_down] repeat_action_last_frame [of action_up]
      run_action_last_frame [of Down] run_action_last_frame [of Up] by simp_all
  show ?thesis
    unfolding action_encoder_def ci using l1 rep
    by (simp split: sum.splits bool.splits)
qed

lemma run_op_last_frame_other: "x \<noteq> GetFrame \<Longrightarrow> last_frame (run_op x b) = last_frame b"
proof (cases x)
  case Step
  then show ?thesis using step_keeps [of b] by (simp add: keeps_def)
next
  case (Reload ev)
  then show ?thesis using reload_reworks [of b ev] by (simp add: reworks_def)
next
  case (SetRepo p ev)
  then show ?thesis
    using reload_reworks [of "b\<lparr>repo_path := p\<rparr>" ev] by (simp add: reworks_def set_repo_def)
next
  case (SetDisplayProfile p r ev)
  then show ?thesis
    using reload_reworks [of "b\<lparr>display_profile := p\<rparr>" ev]
    by (auto simp: reworks_def set_display_profile_def Let_def)
qed (simp_all add: run_action_last_frame action_home_last_frame action_encoder_last_frame pop_errors_def)

lemma run_op_retains: "last_frame b \<noteq> None \<Longrightarrow> last_frame (run_op x b) \<noteq> None"
  using get_frame_retains [of b] run_op_last_frame_other [of x b] by (cases "x = GetFrame") simp_all

lemma run_ops_retains: "last_frame (run_ops ops b) = None \<Longrightarrow> last_frame b = None"
proof (induction ops arbitrary: b)
  case Nil
  then show ?case by simp
next
  case (Cons x xs)
  then have "last_frame (run_op x b) = None" by simp
  with run_op_retains [of b x] show ?case by blast
qed

lemma frames_returned_Cons:
  "frames_returned (x # xs) b =
     (if x = GetFrame then [fst (get_frame b)] else []) @ frames_returned xs (run_op x b)"
  by (cases x) simp_all

lemma frames_returned_none:
  "last_frame (run_ops ops b) = None \<Longrightarrow> list_all (\<lambda>f. f = Inr None) (frames_returned ops b)"
proof (induction ops arbitrary: b)
  case Nil
  then show ?case by simp
next
  case (Cons x xs)
  then have rest: "list_all (\<lambda>f. f = Inr None) (frames_returned xs (run_op x b))" by simp
  from Cons.prems have "last_frame (run_op x b) = None"
    using run_ops_retains [of xs "run_op x b"] by simp
  then have "x = GetFrame \<Longrightarrow> fst (get_frame b) = Inr None"
    using get_frame_returns_retained [of b] by simp
  with rest show ?case by (simp add: frames_returned_Cons del: frames_returned.simps)
qed

lemma retained_is_last_returned:
  "Inr (last_frame (run_ops ops b)) =
     (case frames_returned ops b of [] \<Rightarrow> Inr (last_frame b) | f # fs \<Rightarrow> last (f # fs))"
proof (induction ops arbitrary: b)
  case Nil
  then show ?case by simp
next
  case (Cons x xs)
  show ?case
  proof (cases "x = GetFrame")
    case True
    with Cons [of "run_op x b"] get_frame_returns_retained [of b] show ?thesis
      by (simp add: frames_returned_Cons del: frames_returned.simps split: list.splits)
  next
    case False
    with Cons [of "run_op x b"] run_op_last_frame_other [OF False, of b] show ?thesis
      by (simp add: frames_returned_Cons del: frames_returned.simps split: list.splits)
  qed
qed


lemma bridge_on_flaky:
  "bridge_on (host_flaky 2) =
    (fresh_bridge ''/repo'' None blank_store [''/repo''] ''/home'')
      \<lparr>menulcd_module := Some 1, inst := Some (host_flaky 1), native_size := (128, 128),
       created_ts := 100, calls := [(''get_frame'', [])]\<rparr>"
  by (simp add: bridge_on_def bridge_init_def import_and_create_def import_and_create_try_def
      build_instance_def install_and_probe_def env_with_def all_paths_def fixed_initializer_def
      fresh_bridge_def step_def extract_frame_def getattr_inst_def host_flaky_def
      flaky_get_frame_def invoke_def blank_store_def Let_def)


lemma keeps_idle: "keeps b b' \<Longrightarrow> calls b' = calls b \<Longrightarrow> heap b' = heap b \<and> inst b' = inst b"
  by (auto simp: keeps_def)

lemma get_frame_keeps_but_frame:
  "keeps b ((snd (get_frame b))\<lparr>last_frame := last_frame b\<rparr>)"
proof (cases b rule: get_frame_cases)
  case (raised e b1)
  then show ?thesis
    using extract_frame_keeps [of b] keeps_push [of b b1 "''get_frame failed: '' @ str_exn e"]
    by (simp add: keeps_def push_error_def)
next
  case (nothing b1)
  then show ?thesis using extract_frame_keeps [of b] by (simp add: keeps_def)
next
  case (found r b1)
  then show ?thesis using extract_frame_keeps [of b] by (simp add: keeps_def)
qed

lemma build_instance_calls: "calls (snd (build_instance ev b)) = calls b"
  by (simp add: build_instance_def push_error_def Let_def
      split: sum.splits option.splits prod.splits)

lemma build_instance_heap_cong:
  assumes "repo_path b' = repo_path b" "display_profile b' = display_profile b" "heap b' = heap b"
  shows "heap (snd (build_instance ev b')) = heap (snd (build_instance ev b))"
proof -
  have ba: "\<And>m a. build_args ev (b'\<lparr>menulcd_module := m\<rparr>) a = build_args ev (b\<lparr>menulcd_module := m\<rparr>) a"
    using assms by (simp add: build_args_def)
  show ?thesis
    using assms ba
    by (simp add: build_instance_def push_error_def Let_def split: sum.splits option.splits prod.splits)
qed

lemma install_and_probe_idle:
  assumes "calls (snd (install_and_probe ev menu b)) = calls b"
  shows "heap (snd (install_and_probe ev menu b)) = heap b"
proof -
  let ?b1 = "b\<lparr>inst := menu\<rparr>"
  obtain res b3 where ef: "extract_frame (step ?b1) = (res, b3)" by (cases "extract_frame (step ?b1)")
  have k: "keeps ?b1 b3"
    using keeps_trans [OF step_keeps [of ?b1] extract_frame_keeps [of "step ?b1"]] ef by simp
  have eq: "calls (snd (install_and_probe ev menu b)) = calls b3"
    "heap (snd (install_and_probe ev menu b)) = heap b3"
    unfolding install_and_probe_def ef by (simp_all split: sum.splits option.splits)
  from assms eq have "calls b3 = calls ?b1" by simp
  from keeps_idle [OF k this] eq show ?thesis by simp
qed

lemma install_and_probe_calls: "prefix (calls b) (calls (snd (install_and_probe ev menu b)))"
  using install_and_probe_reworks [of b ev menu] by (simp add: reworks_def)

lemma import_and_create_idle:
  assumes c: "calls (snd (import_and_create ev b)) = calls b"
    and h: "heap (snd (build_instance ev b)) = heap b"
  shows "heap (snd (import_and_create ev b)) = heap b"
proof -
  define b0 where "b0 = (if repo_path b \<in> set (sys_path b) then b else b\<lparr>sys_path := repo_path b # sys_path b\<rparr>)"
  let ?b1 = "b0\<lparr>cwd := repo_path b\<rparr>"
  have same: "repo_path ?b1 = repo_path b" "display_profile ?b1 = display_profile b"
    "heap ?b1 = heap b" "calls ?b1 = calls b" "heap b0 = heap b"
    by (simp_all add: b0_def)
  obtain res b2 where bi: "build_instance ev ?b1 = (res, b2)" by (cases "build_instance ev ?b1")
  have h2: "heap b2 = heap b"
    using build_instance_heap_cong [OF same(1,2,3), of ev] bi h by simp
  have c2: "calls b2 = calls b" using build_instance_calls [of ev ?b1] bi same by simp
  have ic: "import_and_create ev b =
      (if \<not> dir_exists ev (repo_path b)
       then (Inl (Exn OSError (''No such file or directory: '' @ repo_path b)), b0)
       else (case import_and_create_try ev ?b1 of (r, b3) \<Rightarrow> (r, b3\<lparr>cwd := cwd b0\<rparr>)))"
    by (simp add: import_and_create_def Let_def b0_def)
  show ?thesis
  proof (cases "dir_exists ev (repo_path b)")
    case False
    with ic same show ?thesis by simp
  next
    case True
    show ?thesis
    proof (cases res)
      case (Inl e)
      with ic True bi h2 show ?thesis by (simp add: import_and_create_try_def)
    next
      case (Inr menu)
      with ic True bi have eq: "snd (import_and_create ev b) = (snd (install_and_probe ev menu b2))\<lparr>cwd := cwd b0\<rparr>"
        by (simp add: import_and_create_try_def split: prod.splits)
      with c c2 have "calls (snd (install_and_probe ev menu b2)) = calls b2" by simp
      from install_and_probe_idle [OF this] eq h2 show ?thesis by simp
    qed
  qed
qed

lemma reload_idle:
  assumes c: "calls (snd (reload ev b)) = calls b"
    and h: "heap (snd (build_instance ev b)) = heap b"
  shows "heap (snd (reload ev b)) = heap b"
proof -
  let ?b0 = "b\<lparr>logger := logger b @ [(''info'', ''Reloading MenuLCD...'')]\<rparr>"
  obtain res b1 where ic: "import_and_create ev ?b0 = (res, b1)" by (cases "import_and_create ev ?b0")
  have eq: "calls (snd (reload ev b)) = calls b1" "heap (snd (reload ev b)) = heap b1"
    unfolding reload_def ic by (cases res; simp add: push_error_def)+
  have "heap (snd (build_instance ev ?b0)) = heap (snd (build_instance ev b))"
    by (rule build_instance_heap_cong) simp_all
  with h have h0: "heap (snd (build_instance ev ?b0)) = heap ?b0" by simp
  have "calls (snd (import_and_create ev ?b0)) = calls ?b0" using c eq ic by simp
  from import_and_create_idle [OF this h0] ic eq show ?thesis by simp
qed

text \<open>
  C3, as the code has it. \<open>get_frame()\<close> hands out the reference extraction found, the
  same one the bridge retains, and allocates nothing: no copy is made. The bridge never
  writes an image itself. A \<open>step()\<close> or \<open>get_frame()\<close> that calls no method of the
  hosted instance leaves the whole image store, the returned frame included, unchanged,
  and so does a \<open>reload()\<close> that calls no method of the instance and whose initializer
  leaves the store unchanged.
\<close>

theorem frame_returned_by_reference:
  "(fst (extract_frame b) = Inr (Some r) \<longrightarrow>
      fst (get_frame b) = Inr (Some r) \<and> last_frame (snd (get_frame b)) = Some r \<and>
      heap (snd (get_frame b)) = heap (snd (extract_frame b))) \<and>
   (calls (step b) = calls b \<longrightarrow> heap (step b) = heap b) \<and>
   (calls (snd (get_frame b)) = calls b \<longrightarrow> heap (snd (get_frame b)) = heap b) \<and>
   (calls (snd (reload ev b)) = calls b \<and> heap (snd (build_instance ev b)) = heap b \<longrightarrow>
      heap (snd (reload ev b)) = heap b)"
proof -
  have a: "fst (get_frame b) = Inr (Some r) \<and> last_frame (snd (get_frame b)) = Some r \<and>
      heap (snd (get_frame b)) = heap (snd (extract_frame b))"
    if "fst (extract_frame b) = Inr (Some r)"
    using that by (cases b rule: get_frame_cases) simp_all
  have s: "heap (step b) = heap b" if "calls (step b) = calls b"
    using keeps_idle [OF step_keeps that] by simp
  have g: "heap (snd (get_frame b)) = heap b" if "calls (snd (get_frame b)) = calls b"
    using keeps_idle [OF get_frame_keeps_but_frame [of b]] that by simp
  from a s g reload_idle show ?thesis by blast
qed

lemma bridge_on_drawing:
  "bridge_on host_drawing =
    (fresh_bridge ''/repo'' None blank_store [''/repo''] ''/home'')
      \<lparr>menulcd_module := Some 1, inst := Some host_drawing, native_size := (128, 128),
       created_ts := 100,
       heap := blank_store(0 := \<lparr>width = 128, height = 128, pixels = [1]\<rparr>),
       calls := [(''render'', [])]\<rparr>"
  by (simp add: bridge_on_def bridge_init_def import_and_create_def import_and_create_try_def
      build_instance_def install_and_probe_def env_with_def all_paths_def fixed_initializer_def
      fresh_bridge_def step_def extract_frame_def getattr_inst_def host_drawing_def
      draws_def invoke_def blank_store_def Let_def)

theorem frame_returned_by_reference_witness:
  "fst (get_frame (bridge_on host_drawing)) = Inr (Some 0) \<and>
   last_frame (snd (get_frame (bridge_on host_drawing))) = Some 0 \<and>
   heap (snd (get_frame (bridge_on host_drawing))) = heap (bridge_on host_drawing) \<and>
   heap (step (bridge_on bare_host)) = heap (bridge_on bare_host) \<and>
   heap (snd (reload (env_with (Some bare_host)) (bridge_on bare_host))) = heap (bridge_on bare_host)"
  using frame_returned_by_reference [of "bridge_on host_drawing" 0 "env_with (Some bare_host)"]
    frame_returned_by_reference [of "bridge_on bare_host" 0 "env_with (Some bare_host)"]
  unfolding bridge_on_drawing bridge_on_bare_host
  by (simp add: get_frame_def get_frame_try_def extract_frame_def getattr_inst_def host_drawing_def
      step_def bare_host_def fresh_bridge_def Let_def reload_def import_and_create_def
      import_and_create_try_def build_instance_def install_and_probe_def env_with_def
      all_paths_def fixed_initializer_def)

text \<open>
  C3, as the claim states it, fails: the frame returned is the hosted instance's own
  image object. Over an instance that draws into its \<open>image\<close> attribute in place, the
  object \<open>get_frame()\<close> returned has one pixel written, and after the next \<open>step()\<close>
  the same object has two.
\<close>

theorem step_redraws_returned_frame:
  "fst (get_frame (bridge_on host_drawing)) = Inr (Some 0) \<and>
   pixels (heap (snd (get_frame (bridge_on host_drawing))) 0) = [1] \<and>
   pixels (heap (step (snd (get_frame (bridge_on host_drawing)))) 0) = [1, 1]"
  unfolding bridge_on_drawing
  by (simp add: get_frame_def get_frame_try_def extract_frame_def getattr_inst_def host_drawing_def
      step_def draws_def invoke_def fresh_bridge_def blank_store_def Let_def)

end
